theory Spec2Isabelle
  imports Main "HOL-Library.Word"
begin

unbundle bit_operations_syntax

section \<open>Machine types and error codes\<close>

text \<open>
  The kernel runs on x86-64: addresses and ELF sizes are 64-bit words (\<open>+\<close>, \<open>-\<close> wrap
  around, \<open><\<close> is the unsigned order), memory is an array of bytes indexed by address.
  \<open>Error\<close> lists the codes of error.hpp that terminal.cpp names, and the allocation
  failure that the paging primitives hand back. An \<open>Error\<close> converts to \<open>true\<close> exactly
  when it is not \<open>kSuccess\<close>.
\<close>

datatype Error = kSuccess | kFull | kInvalidFormat | kInvalidFile | kNoEnoughMemory

type_synonym addr = "64 word"
type_synonym byte = "8 word"
type_synonym memory = "addr \<Rightarrow> byte"

section \<open>MakeArgVector\<close>

text \<open>
  C strings are lists of characters; the string a \<open>char*\<close> names ends before its first NUL
  (\<open>c_str\<close>). \<open>argv\<close> and \<open>argbuf\<close> are the caller's arrays: \<open>argv i = Some j\<close> says that
  slot \<open>i\<close> of \<open>argv\<close> was set to \<open>&argbuf[j]\<close>, and \<open>argbuf j = Some c\<close> says that byte \<open>c\<close>
  was stored at offset \<open>j\<close> from the start of \<open>argbuf\<close>. Offsets are not cut off at
  \<open>argbuf_len\<close>: \<open>strcpy\<close> does not know the length of its destination, so a store at an
  offset \<open>\<ge> argbuf_len\<close> is a store behind the end of the buffer.
\<close>

definition NUL :: char where
  "NUL = CHR 0x00"

definition isspace :: "char \<Rightarrow> bool" where
  "isspace c = (c \<in> set [CHR '' '', CHR 0x09, CHR 0x0A, CHR 0x0B, CHR 0x0C, CHR 0x0D])"

definition c_str :: "char list \<Rightarrow> string" where
  "c_str s = takeWhile (\<lambda>c. c \<noteq> NUL) s"

record arg_vector =
  argc :: int
  argbuf_index :: int
  argv :: "int \<rightharpoonup> int"
  argbuf :: "int \<rightharpoonup> char"

fun store_string :: "(int \<rightharpoonup> char) \<Rightarrow> int \<Rightarrow> char list \<Rightarrow> (int \<rightharpoonup> char)" where
  "store_string b i [] = b"
| "store_string b i (c # cs) = store_string (b(i \<mapsto> c)) (i + 1) cs"

definition strcpy :: "(int \<rightharpoonup> char) \<Rightarrow> int \<Rightarrow> string \<Rightarrow> (int \<rightharpoonup> char)" where
  "strcpy b i s = store_string b i (s @ [NUL])"

text \<open>The lambda \<open>push_to_argv\<close> of MakeArgVector, over the variables it captures.\<close>

definition push_to_argv :: "int \<Rightarrow> int \<Rightarrow> string \<Rightarrow> arg_vector \<Rightarrow> Error \<times> arg_vector" where
  "push_to_argv argv_len argbuf_len s a =
     (if argc a \<ge> argv_len \<or> argbuf_index a \<ge> argbuf_len then (kFull, a)
      else (kSuccess,
            a\<lparr>argv := (argv a)(argc a \<mapsto> argbuf_index a),
              argc := argc a + 1,
              argbuf := strcpy (argbuf a) (argbuf_index a) s,
              argbuf_index := argbuf_index a + int (length s) + 1\<rparr>))"

text \<open>
  The \<open>while (true)\<close> loop over \<open>first_arg\<close>. \<open>p\<close> is the rest of the string from the
  pointer \<open>p\<close> on; the end of the list is the terminating NUL.
\<close>

lemma dropWhile_twice_shorter:
  assumes "x \<in> set p"
  shows "length (dropWhile P (dropWhile Q p)) - Suc 0 < length p"
proof -
  have "length (dropWhile P (dropWhile Q p)) \<le> length (dropWhile Q p)"
    by (rule length_dropWhile_le)
  moreover have "length (dropWhile Q p) \<le> length p"
    by (rule length_dropWhile_le)
  moreover have "0 < length p"
    using assms by (cases p) auto
  ultimately show ?thesis
    by linarith
qed

function arg_loop :: "int \<Rightarrow> int \<Rightarrow> string \<Rightarrow> arg_vector \<Rightarrow> Error \<times> arg_vector" where
  "arg_loop argv_len argbuf_len p a =
     (let p1 = dropWhile isspace p in
      if p1 = [] then (kSuccess, a)
      else
        let arg = takeWhile (\<lambda>c. \<not> isspace c) p1;
            p2 = dropWhile (\<lambda>c. \<not> isspace c) p1;
            is_end = (p2 = [])
        in case push_to_argv argv_len argbuf_len arg a of
             (err, a') \<Rightarrow>
               if err \<noteq> kSuccess then (err, a')
               else if is_end then (kSuccess, a')
               else arg_loop argv_len argbuf_len (tl p2) a')"
  by pat_completeness auto
termination
  by (relation "measure (\<lambda>(argv_len, argbuf_len, p, a). length p)")
    (auto intro: dropWhile_twice_shorter)

definition MakeArgVector ::
  "string \<Rightarrow> string option \<Rightarrow> int \<Rightarrow> int \<Rightarrow> (int \<times> Error) \<times> arg_vector" where
  "MakeArgVector command first_arg argv_len argbuf_len =
     (let a0 = \<lparr>argc = 0, argbuf_index = 0, argv = Map.empty, argbuf = Map.empty\<rparr> in
      case push_to_argv argv_len argbuf_len (c_str command) a0 of
        (err, a1) \<Rightarrow>
          if err \<noteq> kSuccess then ((argc a1, err), a1)
          else case first_arg of
                 None \<Rightarrow> ((argc a1, kSuccess), a1)
               | Some p \<Rightarrow>
                   (case arg_loop argv_len argbuf_len (c_str p) a1 of
                      (err2, a2) \<Rightarrow> ((argc a2, err2), a2)))"






section \<open>Kernel state and collaborators\<close>

text \<open>
  The structures of elf.h, fat.hpp and terminal.hpp that terminal.cpp reads, with the
  fields it reads. \<open>Elf64_Ehdr\<close> is the header as seen through the pointer \<open>ehdr\<close>:
  \<open>ehdr_addr\<close> is the pointer itself and \<open>phdr_table\<close> the array that GetProgramHeader
  finds at \<open>ehdr + e_phoff\<close>. The header and the table are read once, when the pointer is
  formed; a segment copied over the file buffer itself is outside this view.
  A \<open>DirectoryEntry\<close> is known by its address \<open>entry_addr\<close>: the cache is keyed by the
  pointer.
\<close>

record Elf64_Phdr =
  p_type :: "32 word"
  p_offset :: "64 word"
  p_vaddr :: "64 word"
  p_paddr :: "64 word"
  p_filesz :: "64 word"
  p_memsz :: "64 word"

record Elf64_Ehdr =
  ehdr_addr :: addr
  e_ident :: "byte list"
  e_type :: "16 word"
  e_entry :: "64 word"
  e_phnum :: "16 word"
  phdr_table :: "nat \<Rightarrow> Elf64_Phdr"

text \<open>
  \<open>PT_LOAD\<close> and \<open>ET_EXEC\<close> are constants of elf.h, which is not among the sources; the
  values are those of the ELF-64 object file format. No result below depends on them.
\<close>

definition PT_LOAD :: "32 word" where
  "PT_LOAD = 1"

definition ET_EXEC :: "16 word" where
  "ET_EXEC = 2"

record AppLoadInfo =
  vaddr_end :: "64 word"
  entry :: "64 word"
  pml4 :: addr

record DirectoryEntry =
  entry_addr :: addr
  name :: "byte list"
  attr :: "8 word"
  file_size :: "32 word"
  first_cluster :: "32 word"

text \<open>
  The calls that leave terminal.cpp are recorded in \<open>trace\<close>, in order. The state holds
  the memory as the active address space shows it, the CR3 register, the fields of the
  current task that ExecuteFile and LoadApp use, the argument page that MakeArgVector
  fills, and the global \<open>g_app_loads\<close>.
\<close>

datatype event =
    EvNewPageMap
  | EvSetupPageMaps addr "64 word" bool
  | EvCopyPageMaps addr addr int int
  | EvCleanPageMaps addr
  | EvFreePageMap addr
  | EvLoadFile addr
  | EvCallApp int "64 word"
  | EvNewTask "string option"

datatype file_descriptor = TerminalFileDescriptor

record kstate =
  mem :: memory
  cr3 :: addr
  task_cr3 :: addr
  task_files :: "file_descriptor list"
  task_file_maps :: "nat list"
  dpaging_begin :: "64 word"
  dpaging_end :: "64 word"
  file_map_end :: "64 word"
  arg_page :: arg_vector
  g_app_loads :: "addr \<rightharpoonup> AppLoadInfo"
  trace :: "event list"

text \<open>
  The collaborators whose code is not part of terminal.cpp are parameters of the model:
  the paging primitives of paging.hpp (they work on the page tables, which live in
  memory, under the active CR3), the heap that backs \<open>std::vector\<close>, the FAT driver, the
  layout of the ELF header, the launched program, the PCI and memory-manager tables, and
  the constants of terminal.hpp and keyboard.hpp. \<open>app_run\<close> is the child program: it
  returns its exit code, the text it sent to the terminal through its file descriptors,
  and the kernel state it left, or \<open>None\<close> when it never returns. \<open>fat_FindFile\<close> takes
  the \<open>const char*\<close> it is handed, which may be the null pointer (\<open>None\<close>).
\<close>

record env =
  pg_NewPageMap :: "memory \<Rightarrow> (addr \<times> Error) \<times> memory"
  pg_SetupPageMaps :: "addr \<Rightarrow> 64 word \<Rightarrow> bool \<Rightarrow> addr \<Rightarrow> memory \<Rightarrow> Error \<times> memory"
  pg_CopyPageMaps :: "addr \<Rightarrow> addr \<Rightarrow> int \<Rightarrow> int \<Rightarrow> memory \<Rightarrow> Error \<times> memory"
  pg_CleanPageMaps :: "addr \<Rightarrow> addr \<Rightarrow> memory \<Rightarrow> Error \<times> memory"
  pg_FreePageMap :: "addr \<Rightarrow> memory \<Rightarrow> Error \<times> memory"
  pg_kernel_pml4 :: addr
  heap_buffer :: "32 word \<Rightarrow> memory \<Rightarrow> addr"
  fat_LoadFile :: "addr \<Rightarrow> 32 word \<Rightarrow> DirectoryEntry \<Rightarrow> memory \<Rightarrow> memory"
  fat_FindFile :: "string option \<Rightarrow> DirectoryEntry option \<times> bool"
  fat_FormatName :: "DirectoryEntry \<Rightarrow> string"
  fat_root_cluster :: "32 word"
  fat_directory :: "32 word \<Rightarrow> DirectoryEntry list"
  fat_cluster_bytes :: "32 word \<Rightarrow> string"
  fat_NextCluster :: "32 word \<Rightarrow> 32 word"
  fat_kEndOfClusterchain :: "32 word"
  fat_kLongName :: "8 word"
  fat_kDirectory :: "8 word"
  elf_header_at :: "addr \<Rightarrow> memory \<Rightarrow> Elf64_Ehdr"
  app_run :: "int \<Rightarrow> arg_vector \<Rightarrow> 64 word \<Rightarrow> kstate \<Rightarrow> (32 word \<times> string \<times> kstate) option"
  pci_device_lines :: "string list"
  mm_Stat :: "memory \<Rightarrow> 64 word \<times> 64 word"
  kBytesPerFrame :: "64 word"
  kColumns :: int
  kRows :: int
  kLineMax :: int
  kLControlBitMask :: "8 word"
  kRControlBitMask :: "8 word"

definition NewPageMap :: "env \<Rightarrow> kstate \<Rightarrow> (addr \<times> Error) \<times> kstate" where
  "NewPageMap env s =
     (case pg_NewPageMap env (mem s) of
        (r, m) \<Rightarrow> (r, s\<lparr>mem := m, trace := trace s @ [EvNewPageMap]\<rparr>))"

definition SetupPageMaps :: "env \<Rightarrow> addr \<Rightarrow> 64 word \<Rightarrow> bool \<Rightarrow> kstate \<Rightarrow> Error \<times> kstate" where
  "SetupPageMaps env a num_4kpages writable s =
     (case pg_SetupPageMaps env a num_4kpages writable (cr3 s) (mem s) of
        (err, m) \<Rightarrow>
          (err, s\<lparr>mem := m, trace := trace s @ [EvSetupPageMaps a num_4kpages writable]\<rparr>))"

definition CopyPageMaps :: "env \<Rightarrow> addr \<Rightarrow> addr \<Rightarrow> int \<Rightarrow> int \<Rightarrow> kstate \<Rightarrow> Error \<times> kstate" where
  "CopyPageMaps env dest src part start s =
     (case pg_CopyPageMaps env dest src part start (mem s) of
        (err, m) \<Rightarrow>
          (err, s\<lparr>mem := m, trace := trace s @ [EvCopyPageMaps dest src part start]\<rparr>))"

definition CleanPageMaps :: "env \<Rightarrow> addr \<Rightarrow> kstate \<Rightarrow> Error \<times> kstate" where
  "CleanPageMaps env a s =
     (case pg_CleanPageMaps env a (cr3 s) (mem s) of
        (err, m) \<Rightarrow> (err, s\<lparr>mem := m, trace := trace s @ [EvCleanPageMaps a]\<rparr>))"

definition FreePageMap :: "env \<Rightarrow> addr \<Rightarrow> kstate \<Rightarrow> Error \<times> kstate" where
  "FreePageMap env table s =
     (case pg_FreePageMap env table (mem s) of
        (err, m) \<Rightarrow> (err, s\<lparr>mem := m, trace := trace s @ [EvFreePageMap table]\<rparr>))"

definition LoadFile :: "env \<Rightarrow> addr \<Rightarrow> 32 word \<Rightarrow> DirectoryEntry \<Rightarrow> kstate \<Rightarrow> kstate" where
  "LoadFile env buf len file_entry s =
     s\<lparr>mem := fat_LoadFile env buf len file_entry (mem s),
       trace := trace s @ [EvLoadFile (entry_addr file_entry)]\<rparr>"

section \<open>The image loader\<close>

text \<open>\<open>memcpy dst src n\<close>: the \<open>n\<close> bytes from \<open>dst\<close> on become the \<open>n\<close> bytes from \<open>src\<close> on.\<close>

definition memcpy :: "addr \<Rightarrow> addr \<Rightarrow> 64 word \<Rightarrow> memory \<Rightarrow> memory" where
  "memcpy dst src n m = (\<lambda>a. if a - dst < n then m (src + (a - dst)) else m a)"

definition GetProgramHeader :: "Elf64_Ehdr \<Rightarrow> nat \<Rightarrow> Elf64_Phdr" where
  "GetProgramHeader ehdr = phdr_table ehdr"

fun first_load_from :: "(nat \<Rightarrow> Elf64_Phdr) \<Rightarrow> nat list \<Rightarrow> 64 word" where
  "first_load_from phdr [] = 0"
| "first_load_from phdr (i # rest) =
     (if p_type (phdr i) \<noteq> PT_LOAD then first_load_from phdr rest else p_vaddr (phdr i))"

definition GetFirstLoadAddress :: "Elf64_Ehdr \<Rightarrow> 64 word" where
  "GetFirstLoadAddress ehdr =
     first_load_from (GetProgramHeader ehdr) [0 ..< unat (e_phnum ehdr)]"

text \<open>
  The loop of CopyLoadSegments over the indices still to visit; \<open>last_addr\<close> is the
  running maximum. The second \<open>memcpy\<close> has the source pointer \<open>0\<close>, as in the code.
\<close>

fun copy_segments ::
  "env \<Rightarrow> Elf64_Ehdr \<Rightarrow> nat list \<Rightarrow> 64 word \<Rightarrow> kstate \<Rightarrow> (64 word \<times> Error) \<times> kstate" where
  "copy_segments env ehdr [] last_addr s = ((last_addr, kSuccess), s)"
| "copy_segments env ehdr (i # rest) last_addr s =
     (let ph = GetProgramHeader ehdr i in
      if p_type ph \<noteq> PT_LOAD then copy_segments env ehdr rest last_addr s
      else
        let dest_addr = p_vaddr ph;
            last_addr' = max last_addr (p_paddr ph + p_memsz ph);
            num_4kpages = (p_memsz ph + 4095) div 4096
        in case SetupPageMaps env dest_addr num_4kpages False s of
             (err, s1) \<Rightarrow>
               if err \<noteq> kSuccess then ((last_addr', err), s1)
               else
                 let src = ehdr_addr ehdr + p_offset ph;
                     dst = p_vaddr ph;
                     s2 = s1\<lparr>mem := memcpy dst src (p_filesz ph) (mem s1)\<rparr>;
                     s3 = s2\<lparr>mem := memcpy (dst + p_filesz ph) 0
                                        (p_memsz ph - p_filesz ph) (mem s2)\<rparr>
                 in copy_segments env ehdr rest last_addr' s3)"

definition CopyLoadSegments :: "env \<Rightarrow> Elf64_Ehdr \<Rightarrow> kstate \<Rightarrow> (64 word \<times> Error) \<times> kstate" where
  "CopyLoadSegments env ehdr s = copy_segments env ehdr [0 ..< unat (e_phnum ehdr)] 0 s"

definition LoadElf :: "env \<Rightarrow> Elf64_Ehdr \<Rightarrow> kstate \<Rightarrow> (64 word \<times> Error) \<times> kstate" where
  "LoadElf env ehdr s =
     (if e_type ehdr \<noteq> ET_EXEC then ((0, kInvalidFormat), s)
      else
        let addr_first = GetFirstLoadAddress ehdr in
        if addr_first < 0xffff800000000000 then ((0, kInvalidFormat), s)
        else CopyLoadSegments env ehdr s)"

section \<open>Address spaces and the launch cache\<close>

text \<open>
  SetupPML4 and FreePML4. \<open>GetCR3\<close> and \<open>SetCR3\<close> read and write \<open>cr3\<close>; \<open>ResetCR3\<close> puts
  the kernel's own table \<open>pg_kernel_pml4\<close> back. The \<open>memcpy\<close> of SetupPML4 copies
  \<open>256 * sizeof(uint64_t)\<close> bytes, the first 256 entries of the active table.
\<close>

definition SetupPML4 :: "env \<Rightarrow> kstate \<Rightarrow> (addr \<times> Error) \<times> kstate" where
  "SetupPML4 env s =
     (case NewPageMap env s of
        ((new_pml4, err), s1) \<Rightarrow>
          if err \<noteq> kSuccess then ((new_pml4, err), s1)
          else
            let current_pml4 = cr3 s1;
                s2 = s1\<lparr>mem := memcpy new_pml4 current_pml4 (256 * 8) (mem s1)\<rparr>;
                s3 = s2\<lparr>cr3 := new_pml4, task_cr3 := new_pml4\<rparr>
            in ((new_pml4, kSuccess), s3))"

definition FreePML4 :: "env \<Rightarrow> kstate \<Rightarrow> Error \<times> kstate" where
  "FreePML4 env s =
     (let old_cr3 = task_cr3 s;
          s1 = s\<lparr>task_cr3 := 0\<rparr>;
          s2 = s1\<lparr>cr3 := pg_kernel_pml4 env\<rparr>
      in FreePageMap env old_cr3 s2)"

definition no_app_load :: AppLoadInfo where
  "no_app_load = \<lparr>vaddr_end = 0, entry = 0, pml4 = 0\<rparr>"

definition elf_magic :: "byte list" where
  "elf_magic = [0x7f, 0x45, 0x4c, 0x46]"

text \<open>\<open>std::map::insert\<close>: a key that is present keeps its value.\<close>

definition map_insert :: "('k \<rightharpoonup> 'v) \<Rightarrow> 'k \<Rightarrow> 'v \<Rightarrow> ('k \<rightharpoonup> 'v)" where
  "map_insert m k v = (case m k of None \<Rightarrow> m(k \<mapsto> v) | Some old \<Rightarrow> m)"

text \<open>
  LoadApp. \<open>file_buf\<close> is the storage of the \<open>std::vector\<close> that receives the file, and
  \<open>elf_header\<close> the ELF header seen at its start.
\<close>

definition LoadApp :: "env \<Rightarrow> DirectoryEntry \<Rightarrow> kstate \<Rightarrow> (AppLoadInfo \<times> Error) \<times> kstate" where
  "LoadApp env file_entry s =
     (case SetupPML4 env s of
        ((temp_pml4, err), s1) \<Rightarrow>
          if err \<noteq> kSuccess then ((no_app_load, err), s1)
          else
            case g_app_loads s1 (entry_addr file_entry) of
              Some app_load \<Rightarrow>
                (case CopyPageMaps env temp_pml4 (pml4 app_load) 4 256 s1 of
                   (err, s2) \<Rightarrow> ((app_load\<lparr>pml4 := temp_pml4\<rparr>, err), s2))
            | None \<Rightarrow>
                let file_buf = heap_buffer env (file_size file_entry) (mem s1);
                    s2 = LoadFile env file_buf (file_size file_entry) file_entry s1;
                    elf_header = (elf_header_at env file_buf (mem s2))\<lparr>ehdr_addr := file_buf\<rparr>
                in
                  if take 4 (e_ident elf_header) \<noteq> elf_magic then ((no_app_load, kInvalidFile), s2)
                  else
                    case LoadElf env elf_header s2 of
                      ((last_addr, err_load), s3) \<Rightarrow>
                        if err_load \<noteq> kSuccess then ((no_app_load, err_load), s3)
                        else
                          let app_load = \<lparr>vaddr_end = last_addr, entry = e_entry elf_header,
                                          pml4 = temp_pml4\<rparr>;
                              s4 = s3\<lparr>g_app_loads :=
                                        map_insert (g_app_loads s3) (entry_addr file_entry) app_load\<rparr>
                          in case SetupPML4 env s4 of
                               ((new_pml4, err), s5) \<Rightarrow>
                                 if err \<noteq> kSuccess then ((app_load, err), s5)
                                 else
                                   case CopyPageMaps env new_pml4 temp_pml4 4 256 s5 of
                                     (err, s6) \<Rightarrow> ((app_load\<lparr>pml4 := new_pml4\<rparr>, err), s6))"

section \<open>The terminal\<close>

text \<open>
  The members of \<open>Terminal\<close> that the line editor, the history and the printing routines
  use. \<open>linebuf\<close> and the entries of \<open>cmd_history\<close> are arrays of \<open>kLineMax\<close> characters.
  \<open>out\<close> collects, in order, every character handed to \<open>Print(char)\<close>; the pixels of the
  window and the redraw messages to the compositor are not part of the model, so
  \<open>Scroll1\<close>, \<open>DrawCursor\<close> and the glyph drawing leave the state as it is.
\<close>

record terminal =
  cursor_x :: int
  cursor_y :: int
  linebuf :: "char list"
  linebuf_index :: int
  cmd_history :: "char list list"
  cmd_history_index :: int
  show_window :: bool
  out :: string

text \<open>
  What a total model has to say where the C++ has no defined result: a read through a
  null pointer, \<open>sprintf\<close> past the end of \<open>char s[64]\<close>, a loop or a child that never
  comes back.
\<close>

datatype fault = NullPointer | StackBufferOverflow | NoReturn

definition newline :: "env \<Rightarrow> terminal \<Rightarrow> terminal" where
  "newline env t =
     (let t1 = t\<lparr>cursor_x := 0\<rparr> in
      if cursor_y t1 < kRows env - 1 then t1\<lparr>cursor_y := cursor_y t1 + 1\<rparr> else t1)"

definition Print_char :: "env \<Rightarrow> terminal \<Rightarrow> char \<Rightarrow> terminal" where
  "Print_char env t c =
     (let t1 = t\<lparr>out := out t @ [c]\<rparr> in
      if c = CHR 0x0A then newline env t1
      else if cursor_x t1 = kColumns env - 1 then newline env t1
      else t1\<lparr>cursor_x := cursor_x t1 + 1\<rparr>)"

text \<open>\<open>Print(s)\<close> prints up to the NUL; \<open>Print(s, len)\<close> prints \<open>len\<close> bytes.\<close>

definition Print :: "env \<Rightarrow> string \<Rightarrow> terminal \<Rightarrow> terminal" where
  "Print env s t = foldl (Print_char env) t (c_str s)"

definition Print_len :: "env \<Rightarrow> string \<Rightarrow> nat \<Rightarrow> terminal \<Rightarrow> terminal" where
  "Print_len env s len t = foldl (Print_char env) t (take len s)"

text \<open>
  The constructor. The members start from the initialisers of their declarations in
  terminal.hpp: the cursor at the origin, an empty line, \<open>cmd_history_index_\<close> at \<open>-1\<close> and
  an empty \<open>cmd_history_\<close>, which \<open>resize(8)\<close> then fills with eight blank lines.
\<close>

definition Terminal_new :: "env \<Rightarrow> bool \<Rightarrow> terminal" where
  "Terminal_new env show_win =
     (let t0 = \<lparr>cursor_x = 0, cursor_y = 0,
                linebuf = replicate (nat (kLineMax env)) NUL, linebuf_index = 0,
                cmd_history = [], cmd_history_index = - 1,
                show_window = show_win, out = []\<rparr>;
          t1 = (if show_win then Print env ''>'' t0 else t0)
      in t1\<lparr>cmd_history := cmd_history t1 @ replicate 8 (replicate (nat (kLineMax env)) NUL)\<rparr>)"

text \<open>
  HistoryUpDown. The comparison with \<open>cmd_history_.size()\<close> is made on the integers: the
  index never falls below \<open>-1\<close>, so \<open>cmd_history_index_ + 1\<close> is not negative when it is
  converted to \<open>size_t\<close>. \<open>strcpy\<close> writes the entry and its NUL over the start of the line.
\<close>

definition HistoryUpDown :: "env \<Rightarrow> int \<Rightarrow> terminal \<Rightarrow> terminal" where
  "HistoryUpDown env direction t =
     (let t1 = (if direction = - 1 \<and> cmd_history_index t \<ge> 0
                then t\<lparr>cmd_history_index := cmd_history_index t - 1\<rparr>
                else if direction = 1
                        \<and> cmd_history_index t + 1 < int (length (cmd_history t))
                then t\<lparr>cmd_history_index := cmd_history_index t + 1\<rparr>
                else t);
          history = (if cmd_history_index t1 \<ge> 0
                     then c_str (cmd_history t1 ! nat (cmd_history_index t1))
                     else []);
          t2 = t1\<lparr>linebuf := history @ [NUL] @ drop (length history + 1) (linebuf t1)\<rparr>;
          t3 = t2\<lparr>linebuf_index := int (length history)\<rparr>
      in t3\<lparr>cursor_x := linebuf_index t3 + 1\<rparr>)"

subsection \<open>Formatting\<close>

fun dec :: "nat \<Rightarrow> string" where
  "dec n = (if n < 10 then [''0123456789'' ! n]
            else dec (n div 10) @ [''0123456789'' ! (n mod 10)])"

declare dec.simps [simp del]

definition show_int :: "int \<Rightarrow> string" where
  "show_int i = (if i < 0 then CHR ''-'' # dec (nat (- i)) else dec (nat i))"

text \<open>\<open>sprintf\<close> into \<open>char s[64]\<close>: the text and its NUL have to fit.\<close>

definition sprintf64 :: "string \<Rightarrow> fault + string" where
  "sprintf64 text = (if length text < 64 then Inr text else Inl StackBufferOverflow)"

definition Error_Name :: "Error \<Rightarrow> string" where
  "Error_Name e =
     (case e of kSuccess \<Rightarrow> ''kSuccess'' | kFull \<Rightarrow> ''kFull''
      | kInvalidFormat \<Rightarrow> ''kInvalidFormat'' | kInvalidFile \<Rightarrow> ''kInvalidFile''
      | kNoEnoughMemory \<Rightarrow> ''kNoEnoughMemory'')"

subsection \<open>Listing a directory\<close>

text \<open>
  The \<open>for\<close> loop of ListAllEntries over the entries of one cluster. The flag says that
  the loop met an entry whose name starts with \<open>0x00\<close> and returned from the function.
\<close>

fun list_cluster :: "env \<Rightarrow> DirectoryEntry list \<Rightarrow> terminal \<Rightarrow> bool \<times> terminal" where
  "list_cluster env [] t = (False, t)"
| "list_cluster env (d # ds) t =
     (if name d ! 0 = 0x00 then (True, t)
      else if name d ! 0 = 0xe5 then list_cluster env ds t
      else if attr d = fat_kLongName env then list_cluster env ds t
      else list_cluster env ds (Print env [CHR 0x0A] (Print env (fat_FormatName env d) t)))"

partial_function (option) ListAllEntries :: "env \<Rightarrow> terminal \<Rightarrow> 32 word \<Rightarrow> terminal option" where
  "ListAllEntries env t dir_cluster =
     (if dir_cluster \<noteq> fat_kEndOfClusterchain env
      then
        let r = list_cluster env (fat_directory env dir_cluster) t in
        if fst r then Some (snd r)
        else ListAllEntries env (snd r) (fat_NextCluster env dir_cluster)
      else Some t)"

text \<open>The \<open>while\<close> loop of the \<open>cat\<close> branch over the cluster chain of the file.\<close>

partial_function (option) cat_clusters ::
  "env \<Rightarrow> 32 word \<Rightarrow> 32 word \<Rightarrow> terminal \<Rightarrow> terminal option" where
  "cat_clusters env cluster remain_bytes t =
     (if cluster \<noteq> 0 \<and> cluster \<noteq> fat_kEndOfClusterchain env
      then
        let p = fat_cluster_bytes env cluster;
            i = min (length p) (unat remain_bytes);
            t' = foldl (Print_char env) t (take i p)
        in cat_clusters env (fat_NextCluster env cluster) (remain_bytes - of_nat i) t'
      else Some t)"

section \<open>Launching a program\<close>

text \<open>
  ExecuteFile up to the call of the program: LoadApp, the argument page, MakeArgVector,
  the stack page, the three standard file descriptors and the demand-paging range.
  \<open>SetupPageMaps(addr, 1)\<close> maps writable pages (the default of the third parameter).
  \<open>Inl err\<close> is one of the four \<open>return err\<close> before CallApp.
\<close>

definition launch_setup ::
  "env \<Rightarrow> DirectoryEntry \<Rightarrow> string \<Rightarrow> string option \<Rightarrow> kstate
     \<Rightarrow> (Error + AppLoadInfo \<times> int) \<times> kstate" where
  "launch_setup env file_entry command first_arg s =
     (case LoadApp env file_entry s of
        ((app_load, err), s1) \<Rightarrow>
          if err \<noteq> kSuccess then (Inl err, s1)
          else
            case SetupPageMaps env 0xfffffffffffff000 1 True s1 of
              (err, s2) \<Rightarrow>
                if err \<noteq> kSuccess then (Inl err, s2)
                else
                  let argv_len = 32;
                      argbuf_len = 4096 - 8 * argv_len
                  in case MakeArgVector command first_arg argv_len argbuf_len of
                       ((argc_value, err), args) \<Rightarrow>
                         let s3 = s2\<lparr>arg_page := args\<rparr> in
                         if err \<noteq> kSuccess then (Inl err, s3)
                         else
                           case SetupPageMaps env 0xffffffffffffe000 1 True s3 of
                             (err, s4) \<Rightarrow>
                               if err \<noteq> kSuccess then (Inl err, s4)
                               else
                                 let s5 = s4\<lparr>task_files :=
                                             task_files s4 @ replicate 3 TerminalFileDescriptor\<rparr>;
                                     elf_next_page =
                                       (vaddr_end app_load + 4096) AND 0xfffffffffffff000;
                                     s6 = s5\<lparr>dpaging_begin := elf_next_page,
                                             dpaging_end := elf_next_page,
                                             file_map_end := 0xffffffffffffe000\<rparr>
                                 in (Inr (app_load, argc_value), s6))"

definition CallApp ::
  "env \<Rightarrow> int \<Rightarrow> arg_vector \<Rightarrow> 64 word \<Rightarrow> kstate \<Rightarrow> (32 word \<times> string \<times> kstate) option" where
  "CallApp env argc_value args entry_point s =
     app_run env argc_value args entry_point
       (s\<lparr>trace := trace s @ [EvCallApp argc_value entry_point]\<rparr>)"

text \<open>
  ExecuteFile. The result is \<open>None\<close> when the program never returns. What the program
  writes reaches the terminal through \<open>Print(char)\<close> while it runs.
\<close>

definition ExecuteFile ::
  "env \<Rightarrow> DirectoryEntry \<Rightarrow> string \<Rightarrow> string option \<Rightarrow> terminal \<times> kstate
     \<Rightarrow> (Error \<times> terminal \<times> kstate) option" where
  "ExecuteFile env file_entry command first_arg ts =
     (case ts of
        (t, s) \<Rightarrow>
          case launch_setup env file_entry command first_arg s of
            (Inl err, s1) \<Rightarrow> Some (err, t, s1)
          | (Inr (app_load, argc_value), s1) \<Rightarrow>
              (case CallApp env argc_value (arg_page s1) (entry app_load) s1 of
                 None \<Rightarrow> None
               | Some (ret, written, s2) \<Rightarrow>
                   let t1 = foldl (Print_char env) t written;
                       s3 = s2\<lparr>task_files := [], task_file_maps := []\<rparr>;
                       t2 = Print env (''app exited. ret = '' @ show_int (sint ret) @ [CHR 0x0A]) t1
                   in case CleanPageMaps env 0xffff800000000000 s3 of
                        (err, s4) \<Rightarrow>
                          if err \<noteq> kSuccess then Some (err, t2, s4)
                          else case FreePML4 env s4 of (err, s5) \<Rightarrow> Some (err, t2, s5)))"

section \<open>The command line\<close>

definition cmd_echo :: "env \<Rightarrow> string option \<Rightarrow> terminal \<Rightarrow> terminal" where
  "cmd_echo env first_arg t =
     Print env [CHR 0x0A] (case first_arg of None \<Rightarrow> t | Some a \<Rightarrow> Print env a t)"

definition cmd_lspci :: "env \<Rightarrow> terminal \<Rightarrow> terminal" where
  "cmd_lspci env t = foldl (\<lambda>t' line. Print env line t') t (pci_device_lines env)"

text \<open>The \<open>ls\<close> branch reads \<open>first_arg[0]\<close> first, whatever \<open>first_arg\<close> is.\<close>

definition cmd_ls :: "env \<Rightarrow> string option \<Rightarrow> terminal \<Rightarrow> fault + terminal" where
  "cmd_ls env first_arg t =
     (case first_arg of
        None \<Rightarrow> Inl NullPointer
      | Some a \<Rightarrow>
          if a = [] then
            (case ListAllEntries env t (fat_root_cluster env) of
               None \<Rightarrow> Inl NoReturn | Some t' \<Rightarrow> Inr t')
          else
            case fat_FindFile env first_arg of
              (None, post_slash) \<Rightarrow>
                Inr (Print env [CHR 0x0A]
                      (Print env a (Print env ''No such file or directory: '' t)))
            | (Some dir, post_slash) \<Rightarrow>
                if attr dir = fat_kDirectory env then
                  (case ListAllEntries env t (first_cluster dir) of
                     None \<Rightarrow> Inl NoReturn | Some t' \<Rightarrow> Inr t')
                else if post_slash then
                  Inr (Print env ('' is not a directory'' @ [CHR 0x0A])
                        (Print env (fat_FormatName env dir) t))
                else Inr (Print env [CHR 0x0A] (Print env (fat_FormatName env dir) t)))"

text \<open>
  The \<open>cat\<close> branch hands \<open>first_arg\<close> to FindFile as it is; when the file is not found
  it formats \<open>first_arg\<close> with \<open>%s\<close> into \<open>char s[64]\<close>.
\<close>

definition cmd_cat :: "env \<Rightarrow> string option \<Rightarrow> terminal \<Rightarrow> fault + terminal" where
  "cmd_cat env first_arg t =
     (case fat_FindFile env first_arg of
        (None, post_slash) \<Rightarrow>
          (case first_arg of
             None \<Rightarrow> Inl NullPointer
           | Some a \<Rightarrow>
               (case sprintf64 (''no such file: '' @ a @ [CHR 0x0A]) of
                  Inl f \<Rightarrow> Inl f | Inr text \<Rightarrow> Inr (Print env text t)))
      | (Some file_entry, post_slash) \<Rightarrow>
          if attr file_entry \<noteq> fat_kDirectory env \<and> post_slash then
            Inr (Print env ('' is not a directory'' @ [CHR 0x0A])
                  (Print env (fat_FormatName env file_entry) t))
          else
            case cat_clusters env (first_cluster file_entry) (file_size file_entry) t of
              None \<Rightarrow> Inl NoReturn | Some t' \<Rightarrow> Inr t')"

definition cmd_memstat :: "env \<Rightarrow> memory \<Rightarrow> terminal \<Rightarrow> fault + terminal" where
  "cmd_memstat env m t =
     (case mm_Stat env m of
        (allocated_frames, total_frames) \<Rightarrow>
          case sprintf64 (''Phys used : '' @ dec (unat allocated_frames) @ '' frames (''
                          @ dec (unat (allocated_frames * kBytesPerFrame env div 1024 div 1024))
                          @ '' MiB)'' @ [CHR 0x0A]) of
            Inl f \<Rightarrow> Inl f
          | Inr used_line \<Rightarrow>
              (case sprintf64 (''Phys total : '' @ dec (unat total_frames) @ '' frames (''
                               @ dec (unat (total_frames * kBytesPerFrame env div 1024 div 1024))
                               @ '' MiB)'' @ [CHR 0x0A]) of
                 Inl f \<Rightarrow> Inl f
               | Inr total_line \<Rightarrow> Inr (Print env total_line (Print env used_line t))))"

text \<open>The last branch of ExecuteLine: the command word names a file to run.\<close>

definition cmd_file ::
  "env \<Rightarrow> string \<Rightarrow> string option \<Rightarrow> terminal \<times> kstate \<Rightarrow> fault + terminal \<times> kstate" where
  "cmd_file env command first_arg ts =
     (case ts of
        (t, s) \<Rightarrow>
          case fat_FindFile env (Some command) of
            (None, post_slash) \<Rightarrow>
              Inr (Print env [CHR 0x0A] (Print env command (Print env ''no such command: '' t)), s)
          | (Some file_entry, post_slash) \<Rightarrow>
              if attr file_entry \<noteq> fat_kDirectory env \<and> post_slash then
                Inr (Print env ('' is not a directory'' @ [CHR 0x0A])
                      (Print env (fat_FormatName env file_entry) t), s)
              else
                case ExecuteFile env file_entry command first_arg (t, s) of
                  None \<Rightarrow> Inl NoReturn
                | Some (err, t', s') \<Rightarrow>
                    if err \<noteq> kSuccess then
                      Inr (Print env [CHR 0x0A]
                            (Print env (Error_Name err) (Print env ''failed to exec file: '' t')), s')
                    else Inr (t', s'))"

text \<open>\<open>strchr(&linebuf_[0], ' ')\<close>: the offset of the first space of the line, if any.\<close>

definition strchr_space :: "char list \<Rightarrow> nat option" where
  "strchr_space buf =
     (if CHR '' '' \<in> set (c_str buf)
      then Some (length (takeWhile (\<lambda>c. c \<noteq> CHR '' '') (c_str buf)))
      else None)"

definition ExecuteLine :: "env \<Rightarrow> terminal \<times> kstate \<Rightarrow> fault + terminal \<times> kstate" where
  "ExecuteLine env ts =
     (case ts of
        (t0, s) \<Rightarrow>
          let t = (case strchr_space (linebuf t0) of
                     None \<Rightarrow> t0
                   | Some k \<Rightarrow> t0\<lparr>linebuf := (linebuf t0)[k := NUL]\<rparr>);
              command = c_str (linebuf t);
              first_arg = (case strchr_space (linebuf t0) of
                             None \<Rightarrow> None
                           | Some k \<Rightarrow> Some (c_str (drop (k + 1) (linebuf t))))
          in
            if command = ''echo'' then Inr (cmd_echo env first_arg t, s)
            else if command = ''clear'' then Inr (t\<lparr>cursor_y := 0\<rparr>, s)
            else if command = ''lspci'' then Inr (cmd_lspci env t, s)
            else if command = ''ls'' then
              (case cmd_ls env first_arg t of Inl f \<Rightarrow> Inl f | Inr t' \<Rightarrow> Inr (t', s))
            else if command = ''cat'' then
              (case cmd_cat env first_arg t of Inl f \<Rightarrow> Inl f | Inr t' \<Rightarrow> Inr (t', s))
            else if command = ''noterm'' then Inr (t, s\<lparr>trace := trace s @ [EvNewTask first_arg]\<rparr>)
            else if command = ''memstat'' then
              (case cmd_memstat env (mem s) t of Inl f \<Rightarrow> Inl f | Inr t' \<Rightarrow> Inr (t', s))
            else if command \<noteq> [] then cmd_file env command first_arg (t, s)
            else Inr (t, s))"

definition InputKey ::
  "env \<Rightarrow> 8 word \<Rightarrow> 8 word \<Rightarrow> char \<Rightarrow> terminal \<times> kstate \<Rightarrow> fault + terminal \<times> kstate" where
  "InputKey env modifier keycode ascii ts =
     (case ts of
        (t, s) \<Rightarrow>
          if ascii = CHR 0x0A then
            let t1 = t\<lparr>linebuf := (linebuf t)[nat (linebuf_index t) := NUL]\<rparr>;
                t2 = (if linebuf_index t1 > 0
                      then t1\<lparr>cmd_history := linebuf t1 # butlast (cmd_history t1)\<rparr>
                      else t1);
                t3 = t2\<lparr>linebuf_index := 0, cmd_history_index := - 1, cursor_x := 0\<rparr>;
                t4 = (if cursor_y t3 < kRows env - 1 then t3\<lparr>cursor_y := cursor_y t3 + 1\<rparr>
                      else t3)
            in case ExecuteLine env (t4, s) of
                 Inl f \<Rightarrow> Inl f
               | Inr (t5, s') \<Rightarrow> Inr (Print env ''>'' t5, s')
          else if ascii = CHR 0x08 then
            Inr (if cursor_x t > 0
                 then (let t1 = t\<lparr>cursor_x := cursor_x t - 1\<rparr> in
                       if linebuf_index t1 > 0 then t1\<lparr>linebuf_index := linebuf_index t1 - 1\<rparr>
                       else t1)
                 else t, s)
          else if ascii \<noteq> NUL then
            Inr (if cursor_x t < kColumns env - 1 \<and> linebuf_index t < kLineMax env - 1
                 then t\<lparr>linebuf := (linebuf t)[nat (linebuf_index t) := ascii],
                        linebuf_index := linebuf_index t + 1,
                        cursor_x := cursor_x t + 1\<rparr>
                 else t, s)
          else if keycode = 0x51 then Inr (HistoryUpDown env (- 1) t, s)
          else if keycode = 0x52 then Inr (HistoryUpDown env 1 t, s)
          else Inr (t, s))"

text \<open>
  Keys fed one after the other, as TaskTerminal feeds a command line: a run stops at the
  first fault.
\<close>

fun input_keys :: "env \<Rightarrow> string \<Rightarrow> terminal \<times> kstate \<Rightarrow> fault + terminal \<times> kstate" where
  "input_keys env [] ts = Inr ts"
| "input_keys env (c # cs) ts =
     (case InputKey env 0 0 c ts of Inl f \<Rightarrow> Inl f | Inr ts' \<Rightarrow> input_keys env cs ts')"

fun press_up :: "env \<Rightarrow> nat \<Rightarrow> terminal \<times> kstate \<Rightarrow> fault + terminal \<times> kstate" where
  "press_up env 0 ts = Inr ts"
| "press_up env (Suc n) ts =
     (case InputKey env 0 0x52 NUL ts of Inl f \<Rightarrow> Inl f | Inr ts' \<Rightarrow> press_up env n ts')"

section \<open>The terminal as a file descriptor\<close>

text \<open>
  The messages of the task. \<open>Read\<close> takes the messages that arrive from now on, in order;
  \<open>ReceiveMessage\<close> takes the next one and \<open>Sleep\<close> waits for it, so the result is \<open>None\<close>
  when the list ends before a key makes \<open>Read\<close> return. A result holds the return value,
  the byte stored in \<open>bufc[0]\<close> if one was stored, the messages left and the terminal.
\<close>

datatype message =
    KeyPush (modifier: "8 word") (keycode: "8 word") (ascii: char) (press: bool)
  | OtherMessage

text \<open>\<open>toupper\<close> of the C locale: the letters a to z go to A to Z, every other byte stays.\<close>

definition toupper :: "char \<Rightarrow> char" where
  "toupper c =
     (case map_of (zip ''abcdefghijklmnopqrstuvwxyz'' ''ABCDEFGHIJKLMNOPQRSTUVWXYZ'') c of
        Some u \<Rightarrow> u
      | None \<Rightarrow> c)"

fun Read ::
  "env \<Rightarrow> message list \<Rightarrow> terminal \<Rightarrow> (nat \<times> char option \<times> message list \<times> terminal) option" where
  "Read env [] t = None"
| "Read env (OtherMessage # q) t = Read env q t"
| "Read env (KeyPush m k a p # q) t =
     (if \<not> p then Read env q t
      else if m AND (kLControlBitMask env OR kRControlBitMask env) \<noteq> 0 then
        let t' = Print env [CHR ''^'', toupper a] t in
        if k = 7 then Some (0, None, q, t')
        else Read env q t'
      else Some (1, Some a, q, Print_len env [a] 1 t))"

definition Write :: "env \<Rightarrow> string \<Rightarrow> nat \<Rightarrow> terminal \<Rightarrow> nat \<times> terminal" where
  "Write env buf len t = (len, Print_len env buf len t)"

definition Load :: "nat \<Rightarrow> nat \<Rightarrow> nat" where
  "Load len offset = 0"

section \<open>Observations on the trace\<close>

fun is_teardown :: "event \<Rightarrow> bool" where
  "is_teardown (EvCleanPageMaps a) = True"
| "is_teardown (EvFreePageMap a) = True"
| "is_teardown e = False"

definition teardown_calls :: "event list \<Rightarrow> event list" where
  "teardown_calls evs = filter is_teardown evs"

text \<open>
  What a finished call of ExecuteFile left behind: its error, the calls of CleanPageMaps
  and FreePageMap in the trace, the whole trace, and the CR3 of the task and of the CPU.
\<close>

fun launch_report ::
  "(Error \<times> terminal \<times> kstate) option \<Rightarrow> (Error \<times> event list \<times> event list \<times> addr \<times> addr) option" where
  "launch_report None = None"
| "launch_report (Some (err, t, s)) =
     Some (err, teardown_calls (trace s), trace s, task_cr3 s, cr3 s)"

section \<open>Typing a command and walking the history\<close>

text \<open>
  A key is plain when InputKey takes it as a character of the line. A command fits a
  terminal when every key of it is plain and taken: the line is empty, and neither the
  right margin nor the end of \<open>linebuf\<close> is reached.
\<close>

definition plain_key :: "char \<Rightarrow> bool" where
  "plain_key c = (c \<noteq> NUL \<and> c \<noteq> CHR 0x0A \<and> c \<noteq> CHR 0x08)"

definition fits :: "env \<Rightarrow> terminal \<Rightarrow> string \<Rightarrow> bool" where
  "fits env t c =
     (c \<noteq> [] \<and> list_all plain_key c \<and> linebuf_index t = 0
      \<and> cursor_x t + int (length c) \<le> kColumns env - 1
      \<and> int (length c) \<le> kLineMax env - 1
      \<and> length (linebuf t) = nat (kLineMax env))"

text \<open>
  \<open>entered\<close> is the terminal that InputKey hands to ExecuteLine when the key is Enter.
  \<open>hist_of\<close> is the part of a terminal that the history walk depends on.
\<close>

definition entered :: "env \<Rightarrow> terminal \<Rightarrow> terminal" where
  "entered env t =
     (let t1 = t\<lparr>linebuf := (linebuf t)[nat (linebuf_index t) := NUL]\<rparr>;
          t2 = (if linebuf_index t1 > 0
                then t1\<lparr>cmd_history := linebuf t1 # butlast (cmd_history t1)\<rparr>
                else t1);
          t3 = t2\<lparr>linebuf_index := 0, cmd_history_index := - 1, cursor_x := 0\<rparr>
      in if cursor_y t3 < kRows env - 1 then t3\<lparr>cursor_y := cursor_y t3 + 1\<rparr> else t3)"

definition hist_of :: "terminal \<Rightarrow> char list list \<times> int \<times> int \<times> nat" where
  "hist_of t = (cmd_history t, cmd_history_index t, linebuf_index t, length (linebuf t))"

text \<open>
  What the line editor keeps true of a terminal: \<open>linebuf\<close> is an array of \<open>kLineMax\<close>
  characters, \<open>linebuf_index\<close> is an index into it, \<open>cmd_history_index\<close> is below the size
  of the history, and every line of the history ends inside its array.
\<close>

definition line_ok :: "env \<Rightarrow> terminal \<Rightarrow> bool" where
  "line_ok env t =
     (length (linebuf t) = nat (kLineMax env)
      \<and> 0 \<le> linebuf_index t \<and> linebuf_index t < kLineMax env
      \<and> cmd_history_index t < int (length (cmd_history t))
      \<and> list_all (\<lambda>h. int (length (c_str h)) < kLineMax env) (cmd_history t))"

text \<open>The terminal after the keys \<open>c\<close> were taken into the line.\<close>

definition typed :: "terminal \<Rightarrow> string \<Rightarrow> terminal" where
  "typed t c =
     t\<lparr>linebuf := take (nat (linebuf_index t)) (linebuf t) @ c
                   @ drop (nat (linebuf_index t) + length c) (linebuf t),
       linebuf_index := linebuf_index t + int (length c),
       cursor_x := cursor_x t + int (length c)\<rparr>"

text \<open>The up arrow pressed \<open>n\<close> times after a run of keys, and the line it shows.\<close>

definition then_press_up ::
  "env \<Rightarrow> nat \<Rightarrow> fault + terminal \<times> kstate \<Rightarrow> fault + terminal \<times> kstate" where
  "then_press_up env n r = (case r of Inl f \<Rightarrow> Inl f | Inr ts \<Rightarrow> press_up env n ts)"

fun shown_line :: "fault + terminal \<times> kstate \<Rightarrow> (string \<times> int) option" where
  "shown_line (Inl f) = None"
| "shown_line (Inr (t, s)) = Some (c_str (linebuf t), cmd_history_index t)"

section \<open>Concrete inputs\<close>

text \<open>
  A small machine to run the model on. The program image has one loadable segment at
  the start of the upper canonical half, with two bytes in the file and four in memory.
  The paging primitives succeed and leave memory alone, except that NewPageMap hands
  out the next 4 KiB frame above \<open>0x100000\<close>, counting in the byte at \<open>0x10\<close>. The
  constants are those of a 60 x 15 terminal with 128-byte lines and of the USB HID
  modifier byte. The byte at address 0 is not zero.
\<close>

definition bss_image :: Elf64_Ehdr where
  "bss_image =
     \<lparr>ehdr_addr = 0x200000, e_ident = [0x7f, 0x45, 0x4c, 0x46], e_type = 2,
      e_entry = 0xffff800000000120, e_phnum = 1,
      phdr_table = (\<lambda>i. \<lparr>p_type = 1, p_offset = 0x1000,
                           p_vaddr = 0xffff800000000000, p_paddr = 0xffff800000000000,
                           p_filesz = 2, p_memsz = 4\<rparr>)\<rparr>"

definition dyn_image :: Elf64_Ehdr where
  "dyn_image = bss_image\<lparr>e_type := 3\<rparr>"

definition low_image :: Elf64_Ehdr where
  "low_image =
     bss_image\<lparr>phdr_table := (\<lambda>i. \<lparr>p_type = 1, p_offset = 0x1000,
                                      p_vaddr = 0x400000, p_paddr = 0x400000,
                                      p_filesz = 2, p_memsz = 4\<rparr>)\<rparr>"

definition demo_env :: env where
  "demo_env =
     \<lparr>pg_NewPageMap =
        (\<lambda>m. ((0x100000 + 0x1000 * ucast (m 0x10), kSuccess), m(0x10 := m 0x10 + 1))),
      pg_SetupPageMaps = (\<lambda>a n w c m. (kSuccess, m)),
      pg_CopyPageMaps = (\<lambda>d s p st m. (kSuccess, m)),
      pg_CleanPageMaps = (\<lambda>a c m. (kSuccess, m)),
      pg_FreePageMap = (\<lambda>a m. (kSuccess, m)),
      pg_kernel_pml4 = 0x1000,
      heap_buffer = (\<lambda>n m. 0x200000),
      fat_LoadFile = (\<lambda>buf len fe m. m),
      fat_FindFile = (\<lambda>path. (None, False)),
      fat_FormatName = (\<lambda>d. ''APP''),
      fat_root_cluster = 2,
      fat_directory = (\<lambda>c. []),
      fat_cluster_bytes = (\<lambda>c. []),
      fat_NextCluster = (\<lambda>c. 0x0fffffff),
      fat_kEndOfClusterchain = 0x0fffffff,
      fat_kLongName = 0x0f,
      fat_kDirectory = 0x10,
      elf_header_at = (\<lambda>a m. bss_image),
      app_run = (\<lambda>n args e s. Some (0, [], s)),
      pci_device_lines = [],
      mm_Stat = (\<lambda>m. (1, 2)),
      kBytesPerFrame = 4096,
      kColumns = 60,
      kRows = 15,
      kLineMax = 128,
      kLControlBitMask = 0x01,
      kRControlBitMask = 0x10\<rparr>"

definition demo_state :: kstate where
  "demo_state =
     \<lparr>mem = (\<lambda>a. if a = 0 then 0xCC else 0), cr3 = 0x1000, task_cr3 = 0,
      task_files = [], task_file_maps = [], dpaging_begin = 0, dpaging_end = 0,
      file_map_end = 0,
      arg_page = \<lparr>argc = 0, argbuf_index = 0, argv = Map.empty, argbuf = Map.empty\<rparr>,
      g_app_loads = Map.empty, trace = []\<rparr>"

definition demo_file :: DirectoryEntry where
  "demo_file =
     \<lparr>entry_addr = 0x7000,
      name = [0x41, 0x50, 0x50, 0x20, 0x20, 0x20, 0x20, 0x20, 0x20, 0x20, 0x20],
      attr = 0x20, file_size = 0x2000, first_cluster = 5\<rparr>"


definition clean_fails_env :: env where
  "clean_fails_env = demo_env\<lparr>pg_CleanPageMaps := (\<lambda>a c m. (kNoEnoughMemory, m))\<rparr>"


definition exit_env :: env where
  "exit_env = demo_env\<lparr>app_run := (\<lambda>n args e s. Some (- 1, ''hi'', s))\<rparr>"


text \<open>Three commands, each followed by Enter.\<close>

definition demo_keys :: string where
  "demo_keys = ''echo'' @ [CHR 0x0A] @ ''clear'' @ [CHR 0x0A] @ ''lspci'' @ [CHR 0x0A]"

section \<open>MakeArgVector: the bound on the string buffer\<close>





















section \<open>The image loader: validation and the copy of a segment\<close>

text \<open>
  C4. An image whose type is not \<open>ET_EXEC\<close>, or whose first loadable segment lies below
  \<open>0xffff800000000000\<close>, is refused with \<open>kInvalidFormat\<close>, and the state that LoadElf
  returns is the state it was given: no byte of memory was written and no paging
  primitive was called.
\<close>

theorem LoadElf_rejects_untouched:
  assumes "e_type ehdr \<noteq> ET_EXEC \<or> GetFirstLoadAddress ehdr < 0xffff800000000000"
  shows "LoadElf env ehdr s = ((0, kInvalidFormat), s)"
  using assms by (auto simp: LoadElf_def Let_def)

theorem LoadElf_rejects_untouched_witness:
  "e_type dyn_image \<noteq> ET_EXEC
   \<and> LoadElf demo_env dyn_image demo_state = ((0, kInvalidFormat), demo_state)
   \<and> GetFirstLoadAddress low_image < 0xffff800000000000
   \<and> LoadElf demo_env low_image demo_state = ((0, kInvalidFormat), demo_state)"
proof -
  have a: "e_type dyn_image \<noteq> ET_EXEC"
    by (simp add: dyn_image_def bss_image_def ET_EXEC_def)
  have b: "GetFirstLoadAddress low_image < 0xffff800000000000"
    by (simp add: low_image_def bss_image_def GetFirstLoadAddress_def GetProgramHeader_def
        PT_LOAD_def)
  from a b LoadElf_rejects_untouched [of dyn_image demo_env demo_state]
    LoadElf_rejects_untouched [of low_image demo_env demo_state]
  show ?thesis
    by simp
qed

text \<open>
  C1, at the failing input. \<open>bss_image\<close> is accepted: its one segment has
  \<open>p_filesz = 2\<close> and \<open>p_memsz = 4\<close>, so the bytes at \<open>p_vaddr + 2\<close> and \<open>p_vaddr + 3\<close> are the
  ones the loader has to clear. The second \<open>memcpy\<close> of CopyLoadSegments copies them
  from address 0 instead: after the load the byte at \<open>p_vaddr + 2\<close> is \<open>0xCC\<close>, the byte
  the memory held at address 0.
\<close>

theorem LoadElf_bss_not_cleared:
  "fst (LoadElf demo_env bss_image demo_state) = (0xffff800000000004, kSuccess)
   \<and> mem (snd (LoadElf demo_env bss_image demo_state)) 0xffff800000000002 = 0xCC
   \<and> mem demo_state 0 = 0xCC"
  by (simp add: LoadElf_def bss_image_def demo_env_def demo_state_def ET_EXEC_def
      GetFirstLoadAddress_def GetProgramHeader_def PT_LOAD_def CopyLoadSegments_def
      SetupPageMaps_def Let_def memcpy_def)

section \<open>What the loader and the paging calls leave alone\<close>

lemma SetupPageMaps_frame:
  "SetupPageMaps env a n w s = (err, s') \<Longrightarrow>
     g_app_loads s' = g_app_loads s
     \<and> teardown_calls (trace s') = teardown_calls (trace s)
     \<and> task_files s' = task_files s"
  by (auto simp: SetupPageMaps_def teardown_calls_def split: prod.splits)

lemma NewPageMap_frame:
  "NewPageMap env s = (r, s') \<Longrightarrow>
     g_app_loads s' = g_app_loads s
     \<and> teardown_calls (trace s') = teardown_calls (trace s)
     \<and> task_files s' = task_files s"
  by (auto simp: NewPageMap_def teardown_calls_def split: prod.splits)

lemma CopyPageMaps_frame:
  "CopyPageMaps env d sr p st s = (err, s') \<Longrightarrow>
     g_app_loads s' = g_app_loads s
     \<and> teardown_calls (trace s') = teardown_calls (trace s)
     \<and> task_files s' = task_files s"
  by (auto simp: CopyPageMaps_def teardown_calls_def split: prod.splits)

lemma SetupPML4_frame:
  "SetupPML4 env s = (r, s') \<Longrightarrow>
     g_app_loads s' = g_app_loads s
     \<and> teardown_calls (trace s') = teardown_calls (trace s)
     \<and> task_files s' = task_files s"
  by (auto simp: SetupPML4_def Let_def split: prod.splits if_splits dest: NewPageMap_frame)

lemma SetupPML4_trace:
  "SetupPML4 env s = (r, s') \<Longrightarrow> trace s' = trace s @ [EvNewPageMap]"
  by (auto simp: SetupPML4_def NewPageMap_def Let_def split: prod.splits if_splits)

lemma LoadFile_frame:
  "g_app_loads (LoadFile env buf len fe s) = g_app_loads s
   \<and> teardown_calls (trace (LoadFile env buf len fe s)) = teardown_calls (trace s)
   \<and> task_files (LoadFile env buf len fe s) = task_files s"
  by (simp add: LoadFile_def teardown_calls_def)

lemma copy_segments_frame:
  "copy_segments env ehdr idx la s = (r, s') \<Longrightarrow>
     g_app_loads s' = g_app_loads s
     \<and> teardown_calls (trace s') = teardown_calls (trace s)
     \<and> task_files s' = task_files s"
proof (induction idx arbitrary: la s)
  case Nil
  then show ?case by simp
next
  case (Cons i idx)
  show ?case
  proof (cases "p_type (GetProgramHeader ehdr i) \<noteq> PT_LOAD")
    case True
    with Cons show ?thesis by simp
  next
    case False
    obtain err s1 where stp:
      "SetupPageMaps env (p_vaddr (GetProgramHeader ehdr i))
         ((p_memsz (GetProgramHeader ehdr i) + 4095) div 4096) False s = (err, s1)"
      by (metis prod.collapse)
    note f1 = SetupPageMaps_frame [OF stp]
    show ?thesis
    proof (cases "err = kSuccess")
      case True
      with Cons.prems False stp obtain s3 where
        "copy_segments env ehdr idx
           (max la (p_paddr (GetProgramHeader ehdr i) + p_memsz (GetProgramHeader ehdr i))) s3
           = (r, s')"
        and "g_app_loads s3 = g_app_loads s1" and "trace s3 = trace s1"
        and "task_files s3 = task_files s1"
        by (auto simp: Let_def)
      with Cons.IH f1 show ?thesis by metis
    next
      case False
      with Cons.prems \<open>\<not> p_type (GetProgramHeader ehdr i) \<noteq> PT_LOAD\<close> stp f1 show ?thesis
        by (auto simp: Let_def)
    qed
  qed
qed

lemma LoadElf_frame:
  "LoadElf env ehdr s = (r, s') \<Longrightarrow>
     g_app_loads s' = g_app_loads s
     \<and> teardown_calls (trace s') = teardown_calls (trace s)
     \<and> task_files s' = task_files s"
  by (auto simp: LoadElf_def CopyLoadSegments_def Let_def split: if_splits
      dest: copy_segments_frame)

section \<open>The launch cache\<close>

text \<open>
  What SetupPML4 writes into the table it creates: its first 2048 bytes, the entries 0 to
  255, are the bytes that the table active at the call held at that moment.
\<close>

lemma SetupPML4_copies_first_half:
  assumes "SetupPML4 env s = ((new_pml4, kSuccess), s')" and "k < 2048"
  shows "mem s' (new_pml4 + k) = mem (snd (NewPageMap env s)) (cr3 s + k)"
  using assms
  by (auto simp: SetupPML4_def NewPageMap_def Let_def memcpy_def split: prod.splits if_splits)

lemma LoadApp_caches:
  assumes "LoadApp env file_entry s0 = ((app1, kSuccess), s1)"
  shows "\<exists>c. g_app_loads s1 (entry_addr file_entry) = Some c
             \<and> entry c = entry app1 \<and> vaddr_end c = vaddr_end app1"
proof -
  obtain p e sa where a: "SetupPML4 env s0 = ((p, e), sa)"
    by (metis prod.collapse)
  from assms a have e: "e = kSuccess"
    by (auto simp: LoadApp_def split: if_splits)
  show ?thesis
  proof (cases "g_app_loads sa (entry_addr file_entry)")
    case (Some c)
    with assms a e obtain err where "CopyPageMaps env p (pml4 c) 4 256 sa = (err, s1)"
      and "app1 = c\<lparr>pml4 := p\<rparr>"
      by (auto simp: LoadApp_def split: prod.splits)
    with Some CopyPageMaps_frame [of env p "pml4 c" 4 256 sa err s1] show ?thesis
      by simp
  next
    case None
    define buf where "buf = heap_buffer env (file_size file_entry) (mem sa)"
    define sb where "sb = LoadFile env buf (file_size file_entry) file_entry sa"
    define hdr where "hdr = (elf_header_at env buf (mem sb))\<lparr>ehdr_addr := buf\<rparr>"
    obtain la el sc where l: "LoadElf env hdr sb = ((la, el), sc)"
      by (metis prod.collapse)
    define al where "al = \<lparr>vaddr_end = la, entry = e_entry hdr, pml4 = p\<rparr>"
    define sd where
      "sd = sc\<lparr>g_app_loads := map_insert (g_app_loads sc) (entry_addr file_entry) al\<rparr>"
    obtain p2 e2 se where b: "SetupPML4 env sd = ((p2, e2), se)"
      by (metis prod.collapse)
    obtain e3 sf where c: "CopyPageMaps env p2 p 4 256 se = (e3, sf)"
      by (metis prod.collapse)
    from assms a e None l b c have r: "app1 = al\<lparr>pml4 := p2\<rparr>" "s1 = sf"
      by (auto simp: LoadApp_def Let_def buf_def [symmetric] sb_def [symmetric]
            hdr_def [symmetric] al_def [symmetric] sd_def [symmetric] split: if_splits)
    have "g_app_loads sc (entry_addr file_entry) = None"
      using None LoadElf_frame [OF l]
        LoadFile_frame [of env buf "file_size file_entry" file_entry sa]
      by (simp add: sb_def)
    moreover have "g_app_loads sf = g_app_loads sd"
      using SetupPML4_frame [OF b] CopyPageMaps_frame [OF c] by simp
    ultimately show ?thesis
      using r by (simp add: sd_def al_def map_insert_def)
  qed
qed

text \<open>
  C5. Let a first call of LoadApp for a file return \<open>kSuccess\<close>, and let a second call
  start in any later state that still holds the cache entry of the file and in which
  SetupPML4 gets its table. Then the second call is a cache hit: it returns the entry
  point and \<open>vaddr_end\<close> of the first call with the new table, its error is the one of
  CopyPageMaps, and the only calls it adds to the trace are NewPageMap and CopyPageMaps.
  In particular it does not call \<open>fat::LoadFile\<close>.
\<close>

theorem LoadApp_relaunch_hits_cache:
  assumes first: "LoadApp env file_entry s0 = ((app1, kSuccess), s1)"
    and kept: "g_app_loads s2 (entry_addr file_entry) = g_app_loads s1 (entry_addr file_entry)"
    and table: "SetupPML4 env s2 = ((new_pml4, kSuccess), s2')"
  shows "\<exists>cached err s3 app2.
           g_app_loads s1 (entry_addr file_entry) = Some cached
         \<and> CopyPageMaps env new_pml4 (pml4 cached) 4 256 s2' = (err, s3)
         \<and> LoadApp env file_entry s2 = ((app2, err), s3)
         \<and> entry app2 = entry app1 \<and> vaddr_end app2 = vaddr_end app1 \<and> pml4 app2 = new_pml4
         \<and> trace s3 = trace s2 @ [EvNewPageMap, EvCopyPageMaps new_pml4 (pml4 cached) 4 256]"
proof -
  from LoadApp_caches [OF first] obtain c where
    c: "g_app_loads s1 (entry_addr file_entry) = Some c" "entry c = entry app1"
       "vaddr_end c = vaddr_end app1"
    by blast
  have g: "g_app_loads s2' (entry_addr file_entry) = Some c"
    using SetupPML4_frame [OF table] kept c by simp
  obtain err s3 where cp: "CopyPageMaps env new_pml4 (pml4 c) 4 256 s2' = (err, s3)"
    by (metis prod.collapse)
  have run: "LoadApp env file_entry s2 = ((c\<lparr>pml4 := new_pml4\<rparr>, err), s3)"
    using table g cp by (simp add: LoadApp_def)
  have "trace s3 = trace s2' @ [EvCopyPageMaps new_pml4 (pml4 c) 4 256]"
    using cp by (auto simp: CopyPageMaps_def split: prod.splits)
  then have tr: "trace s3 = trace s2 @ [EvNewPageMap, EvCopyPageMaps new_pml4 (pml4 c) 4 256]"
    using SetupPML4_trace [OF table] by simp
  from c cp run tr show ?thesis
    by auto
qed

lemma demo_first_launch: "snd (fst (LoadApp demo_env demo_file demo_state)) = kSuccess"
  by (simp add: LoadApp_def SetupPML4_def NewPageMap_def CopyPageMaps_def LoadFile_def
      LoadElf_def CopyLoadSegments_def SetupPageMaps_def GetFirstLoadAddress_def
      GetProgramHeader_def demo_env_def demo_file_def demo_state_def bss_image_def
      elf_magic_def ET_EXEC_def PT_LOAD_def Let_def)

theorem LoadApp_relaunch_hits_cache_witness:
  "snd (fst (LoadApp demo_env demo_file demo_state)) = kSuccess
   \<and> (\<exists>app2 err s3.
         LoadApp demo_env demo_file (snd (LoadApp demo_env demo_file demo_state))
           = ((app2, err), s3)
       \<and> entry app2 = entry (fst (fst (LoadApp demo_env demo_file demo_state)))
       \<and> vaddr_end app2 = vaddr_end (fst (fst (LoadApp demo_env demo_file demo_state)))
       \<and> teardown_calls (trace s3)
           = teardown_calls (trace (snd (LoadApp demo_env demo_file demo_state))))"
proof -
  define s1 where "s1 = snd (LoadApp demo_env demo_file demo_state)"
  define app1 where "app1 = fst (fst (LoadApp demo_env demo_file demo_state))"
  have first: "LoadApp demo_env demo_file demo_state = ((app1, kSuccess), s1)"
    using demo_first_launch by (metis app1_def s1_def prod.collapse)
  have "snd (fst (SetupPML4 demo_env s1)) = kSuccess"
    by (simp add: SetupPML4_def NewPageMap_def demo_env_def Let_def split: prod.splits)
  then have table:
    "SetupPML4 demo_env s1 = ((fst (fst (SetupPML4 demo_env s1)), kSuccess),
                               snd (SetupPML4 demo_env s1))"
    by (metis prod.collapse)
  from LoadApp_relaunch_hits_cache [OF first refl table]
  obtain cached :: AppLoadInfo and err s3 app2 where
    a: "LoadApp demo_env demo_file s1 = ((app2, err), s3)"
    and b: "entry app2 = entry app1" "vaddr_end app2 = vaddr_end app1"
    and c: "trace s3 = trace s1 @ [EvNewPageMap,
              EvCopyPageMaps (fst (fst (SetupPML4 demo_env s1))) (pml4 cached) 4 256]"
    by blast
  from c have "teardown_calls (trace s3) = teardown_calls (trace s1)"
    by (simp add: teardown_calls_def)
  with a b have "\<exists>app2 err s3. LoadApp demo_env demo_file s1 = ((app2, err), s3)
       \<and> entry app2 = entry app1 \<and> vaddr_end app2 = vaddr_end app1
       \<and> teardown_calls (trace s3) = teardown_calls (trace s1)"
    by blast
  then show ?thesis
    using demo_first_launch unfolding s1_def app1_def by simp
qed

section \<open>ExecuteFile: a launch that fails before the program is called\<close>























section \<open>ExecuteFile: after the program has returned\<close>

lemma out_Print_char: "out (Print_char env t c) = out t @ [c]"
  by (simp add: Print_char_def newline_def Let_def)

lemma out_foldl_Print_char: "out (foldl (Print_char env) t cs) = out t @ cs"
  by (induction cs arbitrary: t) (simp_all add: out_Print_char)

lemma out_Print: "out (Print env s t) = out t @ c_str s"
  by (simp add: Print_def out_foldl_Print_char)

lemma c_str_no_NUL: "NUL \<notin> set s \<Longrightarrow> c_str s = s"
  by (auto simp: c_str_def takeWhile_eq_all_conv)

lemma digit_not_NUL: "k < 10 \<Longrightarrow> ''0123456789'' ! k \<noteq> NUL"
proof -
  assume "k < 10"
  then have "k \<in> {0, 1, 2, 3, 4, 5, 6, 7, 8, 9}"
    by auto
  then show ?thesis
    by (auto simp: NUL_def)
qed

lemma dec_no_NUL: "NUL \<notin> set (dec n)"
proof (induction n rule: dec.induct)
  case (1 n)
  show ?case
  proof (cases "n < 10")
    case True
    then show ?thesis
      using digit_not_NUL [of n] by (subst dec.simps) simp
  next
    case False
    then have "NUL \<notin> set (dec (n div 10))"
      by (rule "1.IH")
    moreover have "''0123456789'' ! (n mod 10) \<noteq> NUL"
      by (rule digit_not_NUL) simp
    ultimately show ?thesis
      using False by (subst dec.simps) simp
  qed
qed

lemma exit_message_no_NUL:
  "NUL \<notin> set (''app exited. ret = '' @ show_int i @ [CHR 0x0A])"
  using dec_no_NUL [of "nat (- i)"] dec_no_NUL [of "nat i"]
  by (auto simp: show_int_def NUL_def)

lemma CleanPageMaps_result:
  "CleanPageMaps env a s = (err, s') \<Longrightarrow>
     err = fst (pg_CleanPageMaps env a (cr3 s) (mem s))
     \<and> trace s' = trace s @ [EvCleanPageMaps a]
     \<and> task_files s' = task_files s \<and> task_file_maps s' = task_file_maps s
     \<and> task_cr3 s' = task_cr3 s \<and> cr3 s' = cr3 s"
  by (auto simp: CleanPageMaps_def split: prod.splits)

lemma FreePML4_result:
  "FreePML4 env s = (err, s') \<Longrightarrow>
     trace s' = trace s @ [EvFreePageMap (task_cr3 s)]
     \<and> task_files s' = task_files s \<and> task_file_maps s' = task_file_maps s
     \<and> task_cr3 s' = 0 \<and> cr3 s' = pg_kernel_pml4 env"
  by (auto simp: FreePML4_def FreePageMap_def Let_def split: prod.splits)


lemma CleanPageMaps_mem:
  "CleanPageMaps env a s = (err, s') \<Longrightarrow> mem s' = snd (pg_CleanPageMaps env a (cr3 s) (mem s))"
  by (auto simp: CleanPageMaps_def split: prod.splits)

lemma FreePML4_error:
  "FreePML4 env s = (err, s') \<Longrightarrow> err = fst (pg_FreePageMap env (task_cr3 s) (mem s))"
  by (auto simp: FreePML4_def FreePageMap_def Let_def split: prod.splits)


text \<open>
  C8, as amended. When the launch reaches CallApp and the program returns \<open>ret\<close>, then
  for every \<open>ret\<close>: the terminal shows what the program wrote and then
  \<open>app exited. ret = \<close> with \<open>ret\<close> as a signed decimal and a newline; the file descriptors
  and the file maps of the task are empty; CleanPageMaps was called for
  \<open>0xffff800000000000\<close>. The value ExecuteFile returns does not depend on \<open>ret\<close>. If
  CleanPageMaps reported success, FreePML4 ran: FreePageMap was called for the table of
  the task, the CR3 of the task is 0, the CPU is back on the kernel table, and
  ExecuteFile returns what FreePageMap reported. If CleanPageMaps reported an error,
  ExecuteFile returns that error and FreePML4 did not run: the task and the CPU keep
  the table.
\<close>

theorem ExecuteFile_after_child_returns:
  assumes prep: "launch_setup env file_entry command first_arg s = (Inr (app_load, n), s1)"
    and child: "CallApp env n (arg_page s1) (entry app_load) s1 = Some (ret, written, s2)"
  shows "\<exists>err t' s'.
           ExecuteFile env file_entry command first_arg (t, s) = Some (err, t', s')
         \<and> out t' = out t @ written @ ''app exited. ret = '' @ show_int (sint ret) @ [CHR 0x0A]
         \<and> task_files s' = [] \<and> task_file_maps s' = []
         \<and> (if fst (pg_CleanPageMaps env 0xffff800000000000 (cr3 s2) (mem s2)) = kSuccess
             then err = fst (pg_FreePageMap env (task_cr3 s2)
                               (snd (pg_CleanPageMaps env 0xffff800000000000 (cr3 s2) (mem s2))))
                  \<and> trace s' = trace s2 @ [EvCleanPageMaps 0xffff800000000000,
                                             EvFreePageMap (task_cr3 s2)]
                  \<and> task_cr3 s' = 0 \<and> cr3 s' = pg_kernel_pml4 env
             else err = fst (pg_CleanPageMaps env 0xffff800000000000 (cr3 s2) (mem s2))
                  \<and> trace s' = trace s2 @ [EvCleanPageMaps 0xffff800000000000]
                  \<and> task_cr3 s' = task_cr3 s2 \<and> cr3 s' = cr3 s2)"
proof -
  define t1 where "t1 = foldl (Print_char env) t written"
  define t2 where
    "t2 = Print env (''app exited. ret = '' @ show_int (sint ret) @ [CHR 0x0A]) t1"
  define s3 where "s3 = s2\<lparr>task_files := [], task_file_maps := []\<rparr>"
  have o: "out t2 = out t @ written @ ''app exited. ret = '' @ show_int (sint ret) @ [CHR 0x0A]"
    unfolding t2_def t1_def out_Print out_foldl_Print_char
    using c_str_no_NUL [OF exit_message_no_NUL [of "sint ret"]] by simp
  obtain e1 s4 where cl: "CleanPageMaps env 0xffff800000000000 s3 = (e1, s4)"
    by (metis prod.collapse)
  note c = CleanPageMaps_result [OF cl] CleanPageMaps_mem [OF cl]
  obtain e2 s5 where fr: "FreePML4 env s4 = (e2, s5)"
    by (metis prod.collapse)
  note f = FreePML4_result [OF fr] FreePML4_error [OF fr]
  have run: "ExecuteFile env file_entry command first_arg (t, s)
               = (if e1 \<noteq> kSuccess then Some (e1, t2, s4) else Some (e2, t2, s5))"
    using prep child cl [unfolded s3_def] fr
    by (simp add: ExecuteFile_def Let_def t1_def t2_def)
  show ?thesis
  proof (cases "e1 = kSuccess")
    case True
    with run o c f show ?thesis
      by (simp add: s3_def)
  next
    case False
    with run o c show ?thesis
      by (simp add: s3_def)
  qed
qed


lemma exit_prep:
  "\<exists>al s1. launch_setup exit_env demo_file ''app'' None demo_state = (Inr (al, 1), s1)"
  by (simp add: launch_setup_def LoadApp_def SetupPML4_def NewPageMap_def CopyPageMaps_def LoadFile_def
      LoadElf_def CopyLoadSegments_def SetupPageMaps_def GetFirstLoadAddress_def
      GetProgramHeader_def exit_env_def demo_env_def demo_file_def demo_state_def bss_image_def
      elf_magic_def ET_EXEC_def PT_LOAD_def Let_def MakeArgVector_def push_to_argv_def c_str_def NUL_def)

theorem ExecuteFile_after_child_returns_witness:
  "\<exists>t' s'.
      ExecuteFile exit_env demo_file ''app'' None (Terminal_new exit_env True, demo_state)
        = Some (kSuccess, t', s')
    \<and> out t' = ''>hiapp exited. ret = -1'' @ [CHR 0x0A]
    \<and> task_files s' = [] \<and> task_file_maps s' = []
    \<and> task_cr3 s' = 0 \<and> cr3 s' = 0x1000"
proof -
  from exit_prep obtain al s1 where
    p: "launch_setup exit_env demo_file ''app'' None demo_state = (Inr (al, 1), s1)"
    by blast
  have c: "CallApp exit_env 1 (arg_page s1) (entry al) s1
             = Some (- 1, ''hi'', s1\<lparr>trace := trace s1 @ [EvCallApp 1 (entry al)]\<rparr>)"
    by (simp add: CallApp_def exit_env_def demo_env_def)
  have o: "out (Terminal_new exit_env True) = ''>''"
    by (simp add: Terminal_new_def out_Print c_str_def NUL_def Let_def)
  have k: "fst (pg_CleanPageMaps exit_env a b m) = kSuccess"
    "fst (pg_FreePageMap exit_env a m) = kSuccess"
    "pg_kernel_pml4 exit_env = 0x1000" for a b m
    by (simp_all add: exit_env_def demo_env_def)
  have d: "show_int (sint (- 1 :: 32 word)) = ''-1''"
    by (simp add: show_int_def dec.simps)
  from ExecuteFile_after_child_returns [OF p c, of "Terminal_new exit_env True"] o k d
  show ?thesis
    by auto
qed


text \<open>
  C8 as stated fails where CleanPageMaps reports an error: the program has returned 0,
  ExecuteFile returns the error of CleanPageMaps, the only teardown call in the trace is
  CleanPageMaps, and the task and the CPU still name the table \<open>0x101000\<close> of the launch.
\<close>

theorem ExecuteFile_clean_failure_keeps_address_space:
  "launch_report (ExecuteFile clean_fails_env demo_file ''app'' None
                    (Terminal_new clean_fails_env True, demo_state))
     = Some (kNoEnoughMemory, [EvCleanPageMaps 0xffff800000000000],
             [EvNewPageMap, EvLoadFile 0x7000, EvSetupPageMaps 0xffff800000000000 1 False,
              EvNewPageMap, EvCopyPageMaps 0x101000 0x100000 4 256,
              EvSetupPageMaps 0xfffffffffffff000 1 True,
              EvSetupPageMaps 0xffffffffffffe000 1 True,
              EvCallApp 1 0xffff800000000120, EvCleanPageMaps 0xffff800000000000],
             0x101000, 0x101000)"
  by (simp add: ExecuteFile_def launch_setup_def LoadApp_def SetupPML4_def NewPageMap_def
      CopyPageMaps_def LoadFile_def CleanPageMaps_def CallApp_def
      LoadElf_def CopyLoadSegments_def SetupPageMaps_def GetFirstLoadAddress_def
      GetProgramHeader_def clean_fails_env_def demo_env_def demo_file_def demo_state_def
      bss_image_def elf_magic_def ET_EXEC_def PT_LOAD_def Let_def MakeArgVector_def
      push_to_argv_def c_str_def NUL_def teardown_calls_def memcpy_def)



section \<open>The terminal as a file descriptor: Read, Write, Load\<close>

text \<open>
  C9. A pressed key with a control modifier and keycode 7 makes Read return 0, after
  the caret form of the key was printed. A pressed key with a control modifier and
  another keycode is printed in caret form and Read goes on with the next message.
  A pressed key without a control modifier is stored in \<open>bufc[0]\<close>, printed, and Read
  returns 1. Write returns \<open>len\<close> after printing \<open>len\<close> bytes, and Load returns 0.
\<close>

theorem TerminalFileDescriptor_Read_Write_Load:
  "(m AND (kLControlBitMask env OR kRControlBitMask env) \<noteq> 0 \<longrightarrow>
      Read env (KeyPush m 7 a True # q) t
        = Some (0, None, q, Print env [CHR ''^'', toupper a] t))
   \<and> (m AND (kLControlBitMask env OR kRControlBitMask env) \<noteq> 0 \<and> k \<noteq> 7 \<longrightarrow>
      Read env (KeyPush m k a True # q) t = Read env q (Print env [CHR ''^'', toupper a] t))
   \<and> (m AND (kLControlBitMask env OR kRControlBitMask env) = 0 \<longrightarrow>
      Read env (KeyPush m k a True # q) t = Some (1, Some a, q, Print_len env [a] 1 t))
   \<and> out (Print env [CHR ''^'', toupper a] t) = out t @ c_str [CHR ''^'', toupper a]
   \<and> out (Print_len env [a] 1 t) = out t @ [a]
   \<and> fst (Write env buf len t) = len
   \<and> out (snd (Write env buf len t)) = out t @ take len buf
   \<and> Load len offset = 0"
  by (simp add: Let_def out_Print Print_len_def out_Print_char out_foldl_Print_char Write_def
      Load_def)


lemma toupper_d: "toupper (CHR ''d'') = CHR ''D''" and toupper_c: "toupper (CHR ''c'') = CHR ''C''"
  by (simp_all add: toupper_def)

theorem TerminalFileDescriptor_Read_Write_Load_witness:
  "Read demo_env [KeyPush 0x01 7 (CHR ''d'') True] (Terminal_new demo_env True)
     = Some (0, None, [], Print demo_env ''^D'' (Terminal_new demo_env True))
   \<and> out (Print demo_env ''^D'' (Terminal_new demo_env True)) = ''>^D''
   \<and> Read demo_env [KeyPush 0x10 6 (CHR ''c'') True, KeyPush 0x02 4 (CHR ''A'') True]
        (Terminal_new demo_env True)
     = Some (1, Some (CHR ''A''), [],
             Print_len demo_env ''A'' 1 (Print demo_env ''^C'' (Terminal_new demo_env True)))
   \<and> out (Print_len demo_env ''A'' 1 (Print demo_env ''^C'' (Terminal_new demo_env True))) = ''>^CA''
   \<and> fst (Write demo_env ''hello'' 5 (Terminal_new demo_env True)) = 5
   \<and> Load 16 0 = 0"
proof -
  have m: "(0x01 :: 8 word) AND (kLControlBitMask demo_env OR kRControlBitMask demo_env) \<noteq> 0"
    "(0x10 :: 8 word) AND (kLControlBitMask demo_env OR kRControlBitMask demo_env) \<noteq> 0"
    "(0x02 :: 8 word) AND (kLControlBitMask demo_env OR kRControlBitMask demo_env) = 0"
    by (simp_all add: demo_env_def)
  have o: "out (Terminal_new demo_env True) = ''>''"
    by (simp add: Terminal_new_def out_Print c_str_def NUL_def Let_def)
  note r1 = TerminalFileDescriptor_Read_Write_Load
    [where m = "0x01" and env = demo_env and a = "CHR ''d''" and q = "[]"
       and t = "Terminal_new demo_env True" and k = 7 and buf = "''hello''" and len = 5]
  note r2 = TerminalFileDescriptor_Read_Write_Load
    [where m = "0x10" and env = demo_env and a = "CHR ''c''"
       and q = "[KeyPush 0x02 4 (CHR ''A'') True]"
       and t = "Terminal_new demo_env True" and k = 6 and buf = "''hello''" and len = 16]
  note r3 = TerminalFileDescriptor_Read_Write_Load
    [where m = "0x02" and env = demo_env and a = "CHR ''A''" and q = "[]"
       and t = "Print demo_env ''^C'' (Terminal_new demo_env True)"
       and k = 4 and buf = "''hello''" and len = 5]
  from r1 r2 r3 m o show ?thesis
    by (simp add: toupper_d toupper_c c_str_def NUL_def)
qed


section \<open>The history ring\<close>

lemma hist_Print_char: "hist_of (Print_char env t c) = hist_of t"
  by (simp add: hist_of_def Print_char_def newline_def Let_def)

lemma hist_foldl_Print_char: "hist_of (foldl (Print_char env) t cs) = hist_of t"
  by (induction cs arbitrary: t) (simp_all add: hist_Print_char)

lemma hist_Print: "hist_of (Print env s t) = hist_of t"
  by (simp add: Print_def hist_foldl_Print_char)

lemma hist_Print_len: "hist_of (Print_len env s n t) = hist_of t"
  by (simp add: Print_len_def hist_foldl_Print_char)

lemma hist_cmd_echo: "hist_of (cmd_echo env a t) = hist_of t"
  by (simp add: cmd_echo_def hist_Print split: option.splits)

lemma hist_cmd_lspci: "hist_of (cmd_lspci env t) = hist_of t"
proof -
  have "hist_of (foldl (\<lambda>t' line. Print env line t') t ls) = hist_of t" for ls
    by (induction ls arbitrary: t) (simp_all add: hist_Print)
  then show ?thesis
    by (simp add: cmd_lspci_def)
qed

lemma hist_list_cluster: "hist_of (snd (list_cluster env ds t)) = hist_of t"
  by (induction ds arbitrary: t) (simp_all add: hist_Print)

lemma hist_ListAllEntries:
  assumes "ListAllEntries env t c = Some t'"
  shows "hist_of t' = hist_of t"
proof (rule ListAllEntries.raw_induct
    [where P = "\<lambda>env t c t'. hist_of t' = hist_of t", OF _ assms])
  fix lae :: "env \<Rightarrow> terminal \<Rightarrow> 32 word \<Rightarrow> terminal option"
    and env t c t'
  assume IH: "\<And>e u d y. lae e u d = Some y \<Longrightarrow> hist_of y = hist_of u"
    and body:
      "(if c \<noteq> fat_kEndOfClusterchain env
        then let r = list_cluster env (fat_directory env c) t
             in if fst r then Some (snd r) else lae env (snd r) (fat_NextCluster env c)
        else Some t) = Some t'"
  note lc = hist_list_cluster [of env "fat_directory env c" t]
  show "hist_of t' = hist_of t"
  proof (cases "c \<noteq> fat_kEndOfClusterchain env")
    case False
    with body show ?thesis by simp
  next
    case True
    note ne = this
    show ?thesis
    proof (cases "fst (list_cluster env (fat_directory env c) t)")
      case True
      with body ne lc show ?thesis
        by (simp add: Let_def)
    next
      case False
      with body ne have "lae env (snd (list_cluster env (fat_directory env c) t))
                           (fat_NextCluster env c) = Some t'"
        by (simp add: Let_def)
      from IH [OF this] lc show ?thesis
        by simp
    qed
  qed
qed

lemma hist_cat_clusters:
  assumes "cat_clusters env c r t = Some t'"
  shows "hist_of t' = hist_of t"
proof (rule cat_clusters.raw_induct
    [where P = "\<lambda>env c r t t'. hist_of t' = hist_of t", OF _ assms])
  fix cc :: "env \<Rightarrow> 32 word \<Rightarrow> 32 word \<Rightarrow> terminal \<Rightarrow> terminal option"
    and env c r t t'
  assume IH: "\<And>e d q u y. cc e d q u = Some y \<Longrightarrow> hist_of y = hist_of u"
    and body:
      "(if c \<noteq> 0 \<and> c \<noteq> fat_kEndOfClusterchain env
        then let p = fat_cluster_bytes env c;
                 i = min (length p) (unat r)
             in Let (foldl (Print_char env) t (take i p))
                  (cc env (fat_NextCluster env c) (r - word_of_nat i))
        else Some t) = Some t'"
  show "hist_of t' = hist_of t"
  proof (cases "c \<noteq> 0 \<and> c \<noteq> fat_kEndOfClusterchain env")
    case False
    with body show ?thesis by auto
  next
    case True
    with body have "cc env (fat_NextCluster env c)
        (r - word_of_nat (min (length (fat_cluster_bytes env c)) (unat r)))
        (foldl (Print_char env) t (take (min (length (fat_cluster_bytes env c)) (unat r))
           (fat_cluster_bytes env c))) = Some t'"
      by (simp add: Let_def)
    from IH [OF this] show ?thesis
      by (simp add: hist_foldl_Print_char)
  qed
qed

lemma hist_cmd_ls: "cmd_ls env a t = Inr t' \<Longrightarrow> hist_of t' = hist_of t"
  by (auto simp: cmd_ls_def hist_Print split: option.splits if_splits prod.splits
      dest: hist_ListAllEntries)

lemma hist_cmd_cat: "cmd_cat env a t = Inr t' \<Longrightarrow> hist_of t' = hist_of t"
  by (auto simp: cmd_cat_def sprintf64_def hist_Print split: option.splits if_splits prod.splits
      dest: hist_cat_clusters)

lemma hist_cmd_memstat: "cmd_memstat env m t = Inr t' \<Longrightarrow> hist_of t' = hist_of t"
  by (auto simp: cmd_memstat_def sprintf64_def hist_Print split: if_splits prod.splits)

lemma hist_ExecuteFile:
  assumes "ExecuteFile env fe c a (t, s) = Some (err, t', s')"
  shows "hist_of t' = hist_of t"
proof -
  obtain r s1 where ls: "launch_setup env fe c a s = (r, s1)"
    by (metis prod.collapse)
  show ?thesis
  proof (cases r)
    case (Inl e)
    with assms ls show ?thesis
      by (simp add: ExecuteFile_def)
  next
    case (Inr p)
    obtain al n where p: "p = (al, n)"
      by (metis prod.collapse)
    show ?thesis
    proof (cases "CallApp env n (arg_page s1) (entry al) s1")
      case None
      with assms ls Inr p show ?thesis
        by (simp add: ExecuteFile_def)
    next
      case (Some q)
      obtain ret w s2 where q: "q = (ret, w, s2)"
        by (metis prod.collapse)
      define t2 where
        "t2 = Print env (''app exited. ret = '' @ show_int (sint ret) @ [CHR 0x0A])
                (foldl (Print_char env) t w)"
      have h: "hist_of t2 = hist_of t"
        by (simp add: t2_def hist_Print hist_foldl_Print_char)
      from assms ls Inr p Some q have "t' = t2"
        by (simp add: ExecuteFile_def Let_def t2_def split: prod.splits if_splits)
      with h show ?thesis
        by simp
    qed
  qed
qed

lemma hist_cmd_file:
  "cmd_file env c a (t, s) = Inr (t', s') \<Longrightarrow> hist_of t' = hist_of t"
  by (auto simp: cmd_file_def hist_Print split: prod.splits option.splits if_splits
      dest: hist_ExecuteFile)

lemma hist_ExecuteLine:
  assumes "ExecuteLine env (t, s) = Inr (t', s')"
  shows "hist_of t' = hist_of t"
proof -
  define u where "u = (case strchr_space (linebuf t) of None \<Rightarrow> t
                        | Some k \<Rightarrow> t\<lparr>linebuf := (linebuf t)[k := NUL]\<rparr>)"
  have u: "hist_of u = hist_of t"
    by (simp add: u_def hist_of_def split: option.splits)
  define a where "a = (case strchr_space (linebuf t) of None \<Rightarrow> None
                        | Some k \<Rightarrow> Some (c_str (drop (k + 1) (linebuf u))))"
  have clr: "hist_of (u\<lparr>cursor_y := 0\<rparr>) = hist_of u"
    by (simp add: hist_of_def)
  from assms have "hist_of t' = hist_of u"
    unfolding ExecuteLine_def Let_def prod.case u_def [symmetric] a_def [symmetric]
    by (auto simp: hist_cmd_echo hist_cmd_lspci clr
        split: if_splits sum.splits
        dest: hist_cmd_ls hist_cmd_cat hist_cmd_memstat hist_cmd_file)
  with u show ?thesis
    by simp
qed

lemma InputKey_plain:
  assumes "plain_key c"
  shows "InputKey env m k c (t, s) =
           Inr (if cursor_x t < kColumns env - 1 \<and> linebuf_index t < kLineMax env - 1
                then t\<lparr>linebuf := (linebuf t)[nat (linebuf_index t) := c],
                       linebuf_index := linebuf_index t + 1,
                       cursor_x := cursor_x t + 1\<rparr>
                else t, s)"
  using assms by (simp add: InputKey_def plain_key_def)

lemma InputKey_enter:
  "InputKey env m k (CHR 0x0A) (t, s) =
     (case ExecuteLine env (entered env t, s) of
        Inl f \<Rightarrow> Inl f
      | Inr (t5, s') \<Rightarrow> Inr (Print env ''>'' t5, s'))"
  by (simp add: InputKey_def entered_def Let_def)

lemma InputKey_up:
  "InputKey env m 0x52 NUL (t, s) = Inr (HistoryUpDown env 1 t, s)"
  by (simp add: InputKey_def NUL_def)

lemma typed_Cons:
  assumes "0 \<le> linebuf_index t" "nat (linebuf_index t) < length (linebuf t)"
  shows "typed (t\<lparr>linebuf := (linebuf t)[nat (linebuf_index t) := c],
                  linebuf_index := linebuf_index t + 1,
                  cursor_x := cursor_x t + 1\<rparr>) cs = typed t (c # cs)"
proof -
  define i where "i = nat (linebuf_index t)"
  have n: "nat (linebuf_index t + 1) = Suc i"
    using assms by (simp add: i_def)
  have a: "take (Suc i) ((linebuf t)[i := c]) = take i (linebuf t) @ [c]"
    using assms by (simp add: i_def take_Suc_conv_app_nth)
  have b: "drop (Suc i + length cs) ((linebuf t)[i := c]) = drop (Suc i + length cs) (linebuf t)"
    by simp
  show ?thesis
    using a b by (simp add: typed_def n i_def [symmetric])
qed

lemma input_keys_typed:
  assumes "list_all plain_key c"
    and "cursor_x t + int (length c) \<le> kColumns env - 1"
    and "linebuf_index t + int (length c) \<le> kLineMax env - 1"
    and "0 \<le> linebuf_index t"
    and "nat (linebuf_index t) + length c \<le> length (linebuf t)"
  shows "input_keys env c (t, s) = Inr (typed t c, s)"
  using assms
proof (induction c arbitrary: t)
  case Nil
  then show ?case
    by (simp add: typed_def)
next
  case (Cons ch cs)
  define t' where "t' = t\<lparr>linebuf := (linebuf t)[nat (linebuf_index t) := ch],
                          linebuf_index := linebuf_index t + 1,
                          cursor_x := cursor_x t + 1\<rparr>"
  from Cons.prems have step: "InputKey env 0 0 ch (t, s) = Inr (t', s)"
    by (simp add: InputKey_plain t'_def)
  from Cons.prems have "input_keys env cs (t', s) = Inr (typed t' cs, s)"
    by (intro Cons.IH) (simp_all add: t'_def)
  moreover from Cons.prems have "typed t' cs = typed t (ch # cs)"
    unfolding t'_def by (intro typed_Cons) simp_all
  ultimately show ?case
    using step by simp
qed

lemma input_keys_append:
  "input_keys env (a @ b) ts =
     (case input_keys env a ts of Inl f \<Rightarrow> Inl f | Inr ts' \<Rightarrow> input_keys env b ts')"
  by (induction a arbitrary: ts) (simp_all split: sum.splits)

lemma c_str_line: "NUL \<notin> set c \<Longrightarrow> c_str (c @ NUL # r) = c"
  by (auto simp: c_str_def takeWhile_tail takeWhile_eq_all_conv)

lemma plain_no_NUL: "list_all plain_key c \<Longrightarrow> NUL \<notin> set c"
  by (auto simp: list_all_iff plain_key_def)

text \<open>The line and the history that ExecuteLine sees after a command was typed.\<close>

lemma entered_typed:
  assumes "fits env t c"
  shows "linebuf (entered env (typed t c)) = c @ NUL # drop (Suc (length c)) (linebuf t)"
    and "cmd_history (entered env (typed t c))
           = (c @ NUL # drop (Suc (length c)) (linebuf t)) # butlast (cmd_history t)"
    and "cmd_history_index (entered env (typed t c)) = - 1"
    and "linebuf_index (entered env (typed t c)) = 0"
    and "cursor_x (entered env (typed t c)) = 0"
proof -
  from assms have l: "length c < length (linebuf t)" and ne: "c \<noteq> []"
    and i: "linebuf_index t = 0"
    by (auto simp: fits_def)
  have "drop (length c) (linebuf t) = linebuf t ! length c # drop (Suc (length c)) (linebuf t)"
    using l by (simp add: Cons_nth_drop_Suc)
  then have "(c @ drop (length c) (linebuf t))[length c := NUL]
          = c @ NUL # drop (Suc (length c)) (linebuf t)"
    by (simp add: list_update_append)
  then show "linebuf (entered env (typed t c)) = c @ NUL # drop (Suc (length c)) (linebuf t)"
    and "cmd_history (entered env (typed t c))
           = (c @ NUL # drop (Suc (length c)) (linebuf t)) # butlast (cmd_history t)"
    and "cmd_history_index (entered env (typed t c)) = - 1"
    and "linebuf_index (entered env (typed t c)) = 0"
    and "cursor_x (entered env (typed t c)) = 0"
    using ne i by (simp_all add: entered_def typed_def Let_def)
qed

lemma enter_command:
  assumes f: "fits env t c"
    and run: "input_keys env (c @ [CHR 0x0A]) (t, s) = Inr (t', s')"
  shows "cmd_history t' = (c @ NUL # drop (Suc (length c)) (linebuf t)) # butlast (cmd_history t)
         \<and> cmd_history_index t' = - 1 \<and> linebuf_index t' = 0
         \<and> length (linebuf t') = length (linebuf t)"
proof -
  from f have ty: "input_keys env c (t, s) = Inr (typed t c, s)"
    by (intro input_keys_typed) (auto simp: fits_def)
  with run have "InputKey env 0 0 (CHR 0x0A) (typed t c, s) = Inr (t', s')"
    by (simp add: input_keys_append split: sum.splits)
  then obtain t5 where ex: "ExecuteLine env (entered env (typed t c), s) = Inr (t5, s')"
    and t': "t' = Print env ''>'' t5"
    by (auto simp: InputKey_enter split: sum.splits)
  from hist_ExecuteLine [OF ex] have "hist_of t' = hist_of (entered env (typed t c))"
    by (simp add: t' hist_Print)
  moreover from f have "length c < length (linebuf t)"
    by (auto simp: fits_def)
  ultimately show ?thesis
    using entered_typed [OF f] by (simp add: hist_of_def)
qed

lemma HistoryUpDown_up:
  assumes "- 1 \<le> cmd_history_index t"
    and "cmd_history_index t + 1 < int (length (cmd_history t))"
  shows "cmd_history_index (HistoryUpDown env 1 t) = cmd_history_index t + 1
         \<and> cmd_history (HistoryUpDown env 1 t) = cmd_history t
         \<and> c_str (linebuf (HistoryUpDown env 1 t))
             = c_str (cmd_history t ! nat (cmd_history_index t + 1))
         \<and> linebuf_index (HistoryUpDown env 1 t)
             = int (length (c_str (cmd_history t ! nat (cmd_history_index t + 1))))"
proof -
  have "NUL \<notin> set (c_str x)" for x
    by (auto simp: c_str_def dest: set_takeWhileD)
  then have "c_str (c_str x @ NUL # r) = c_str x" for x r
    by (rule c_str_line)
  then show ?thesis
    using assms by (simp add: HistoryUpDown_def Let_def)
qed

lemma press_up_walk:
  assumes "cmd_history_index t = i" and "- 1 \<le> i"
    and "i + int n < int (length (cmd_history t))"
  shows "\<exists>u. press_up env n (t, s) = Inr (u, s)
             \<and> cmd_history u = cmd_history t
             \<and> cmd_history_index u = i + int n
             \<and> (0 < n \<longrightarrow> c_str (linebuf u) = c_str (cmd_history t ! nat (i + int n)))"
  using assms
proof (induction n arbitrary: t i)
  case 0
  then show ?case by simp
next
  case (Suc n)
  define t' where "t' = HistoryUpDown env 1 t"
  from Suc.prems have up:
    "cmd_history_index t' = i + 1" "cmd_history t' = cmd_history t"
    "c_str (linebuf t') = c_str (cmd_history t ! nat (i + 1))"
    using HistoryUpDown_up [of t env] by (simp_all add: t'_def)
  from Suc.prems up have "\<exists>u. press_up env n (t', s) = Inr (u, s)
             \<and> cmd_history u = cmd_history t'
             \<and> cmd_history_index u = (i + 1) + int n
             \<and> (0 < n \<longrightarrow> c_str (linebuf u) = c_str (cmd_history t' ! nat ((i + 1) + int n)))"
    by (intro Suc.IH) simp_all
  then obtain u where u: "press_up env n (t', s) = Inr (u, s)"
    "cmd_history u = cmd_history t'" "cmd_history_index u = (i + 1) + int n"
    "0 < n \<longrightarrow> c_str (linebuf u) = c_str (cmd_history t' ! nat ((i + 1) + int n))"
    by blast
  have "c_str (linebuf u) = c_str (cmd_history t ! nat (i + int (Suc n)))"
  proof (cases n)
    case 0
    with u(1) up(3) show ?thesis by simp
  next
    case (Suc m)
    with u(4) up(2) show ?thesis by (simp add: add.commute add.left_commute)
  qed
  with u up show ?case
    by (simp add: InputKey_up t'_def add.commute add.left_commute)
qed

lemma HistoryUpDown_settles:
  assumes "u = HistoryUpDown env d t" and "0 \<le> cmd_history_index u"
    and "\<not> cmd_history_index u + 1 < int (length (cmd_history u))"
  shows "HistoryUpDown env 1 u = u"
proof -
  define h where "h = c_str (cmd_history u ! nat (cmd_history_index u))"
  have u: "linebuf u = h @ [NUL] @ drop (length h + 1) (linebuf t)"
    "linebuf_index u = int (length h)" "cursor_x u = int (length h) + 1"
    using assms(2) unfolding h_def assms(1) by (simp_all add: HistoryUpDown_def Let_def)
  have "h @ [NUL] @ drop (length h + 1) (linebuf u) = linebuf u"
    by (simp add: u(1))
  then have "HistoryUpDown env 1 u
      = u\<lparr>linebuf := linebuf u, linebuf_index := linebuf_index u, cursor_x := cursor_x u\<rparr>"
    using assms(2,3) u(2,3) by (simp add: HistoryUpDown_def Let_def h_def)
  then show ?thesis
    by simp
qed

lemma press_up_stays:
  assumes "HistoryUpDown env 1 u = u"
  shows "press_up env k (u, s) = Inr (u, s)"
  by (induction k) (simp_all add: InputKey_up assms)

lemma press_up_add:
  "press_up env (a + b) ts =
     (case press_up env a ts of Inl f \<Rightarrow> Inl f | Inr ts' \<Rightarrow> press_up env b ts')"
  by (induction a arbitrary: ts) (simp_all split: sum.splits)

lemma butlast_replicate_Suc: "butlast (replicate (Suc n) x) = replicate n x"
  by (induction n) simp_all

lemma c_str_blank: "c_str (replicate n NUL) = []"
  by (cases n) (simp_all add: c_str_def)

lemma InputKey_down:
  "InputKey env m 0x51 NUL (t, s) = Inr (HistoryUpDown env (- 1) t, s)"
  by (simp add: InputKey_def NUL_def)

lemma HistoryUpDown_down_at_bottom:
  assumes "cmd_history_index t = - 1"
  shows "cmd_history_index (HistoryUpDown env (- 1) t) = - 1
         \<and> c_str (linebuf (HistoryUpDown env (- 1) t)) = []"
  using assms by (simp add: HistoryUpDown_def Let_def c_str_def)

lemma history_after_three:
  assumes fresh: "cmd_history t0 = replicate 8 (replicate (nat (kLineMax env)) NUL)"
    and c1: "fits env t0 c1" "input_keys env (c1 @ [CHR 0x0A]) (t0, s0) = Inr (t1, s1)"
    and c2: "fits env t1 c2" "input_keys env (c2 @ [CHR 0x0A]) (t1, s1) = Inr (t2, s2)"
    and c3: "fits env t2 c3" "input_keys env (c3 @ [CHR 0x0A]) (t2, s2) = Inr (t3, s3)"
  shows "\<exists>l1 l2 l3.
           cmd_history t3 = l3 # l2 # l1 # replicate 5 (replicate (nat (kLineMax env)) NUL)
         \<and> c_str l1 = c1 \<and> c_str l2 = c2 \<and> c_str l3 = c3 \<and> cmd_history_index t3 = - 1"
proof -
  define E where "E = replicate (nat (kLineMax env)) NUL"
  define l1 where "l1 = c1 @ NUL # drop (Suc (length c1)) (linebuf t0)"
  define l2 where "l2 = c2 @ NUL # drop (Suc (length c2)) (linebuf t1)"
  define l3 where "l3 = c3 @ NUL # drop (Suc (length c3)) (linebuf t2)"
  have s: "c_str l1 = c1" "c_str l2 = c2" "c_str l3 = c3"
    using c1(1) c2(1) c3(1) unfolding l1_def l2_def l3_def
    by (auto simp: fits_def intro!: c_str_line plain_no_NUL)
  have h1: "cmd_history t1 = l1 # replicate 7 E"
    using enter_command [OF c1] fresh butlast_replicate_Suc [of 7 E]
    by (simp add: l1_def E_def)
  have h2: "cmd_history t2 = l2 # l1 # replicate 6 E"
    using enter_command [OF c2] h1 butlast_replicate_Suc [of 6 E]
    by (simp add: l2_def)
  have h3: "cmd_history t3 = l3 # l2 # l1 # replicate 5 E"
    using enter_command [OF c3] h2 butlast_replicate_Suc [of 5 E]
    by (simp add: l3_def)
  from h3 s enter_command [OF c3] show ?thesis
    unfolding E_def by blast
qed

lemma history_walk:
  assumes fresh: "cmd_history t0 = replicate 8 (replicate (nat (kLineMax env)) NUL)"
    and c1: "fits env t0 c1" "input_keys env (c1 @ [CHR 0x0A]) (t0, s0) = Inr (t1, s1)"
    and c2: "fits env t1 c2" "input_keys env (c2 @ [CHR 0x0A]) (t1, s1) = Inr (t2, s2)"
    and c3: "fits env t2 c3" "input_keys env (c3 @ [CHR 0x0A]) (t2, s2) = Inr (t3, s3)"
  shows "shown_line (press_up env 1 (t3, s3)) = Some (c3, 0)
       \<and> shown_line (press_up env 2 (t3, s3)) = Some (c2, 1)
       \<and> shown_line (press_up env 3 (t3, s3)) = Some (c1, 2)
       \<and> shown_line (press_up env 4 (t3, s3)) = Some ([], 3)
       \<and> shown_line (press_up env 8 (t3, s3)) = Some ([], 7)
       \<and> press_up env (8 + k) (t3, s3) = press_up env 8 (t3, s3)
       \<and> shown_line (InputKey env 0 0x51 NUL (t3, s3)) = Some ([], - 1)"
proof -
  define E where "E = replicate (nat (kLineMax env)) NUL"
  from history_after_three [OF assms] obtain l1 l2 l3 where
    h: "cmd_history t3 = l3 # l2 # l1 # replicate 5 E"
    and s: "c_str l1 = c1" "c_str l2 = c2" "c_str l3 = c3"
    and i: "cmd_history_index t3 = - 1"
    unfolding E_def by blast
  have e: "c_str E = []"
    by (simp add: E_def c_str_blank)
  have walk: "\<exists>u. press_up env n (t3, s3) = Inr (u, s3)
             \<and> cmd_history u = cmd_history t3
             \<and> cmd_history_index u = - 1 + int n
             \<and> (0 < n \<longrightarrow> c_str (linebuf u) = c_str (cmd_history t3 ! nat (- 1 + int n)))"
    if "n \<le> 8" for n
    using that h by (intro press_up_walk [OF i]) simp_all
  have line: "shown_line (press_up env n (t3, s3))
                = Some (c_str (cmd_history t3 ! (n - 1)), int n - 1)"
    if "0 < n" "n \<le> 8" for n
  proof -
    from walk [OF that(2)] that(1) obtain u where
      "press_up env n (t3, s3) = Inr (u, s3)" "cmd_history_index u = - 1 + int n"
      "c_str (linebuf u) = c_str (cmd_history t3 ! nat (- 1 + int n))"
      by blast
    moreover from that(1) have "nat (- 1 + int n) = n - 1"
      by simp
    ultimately show ?thesis
      by simp
  qed
  have p1: "shown_line (press_up env 1 (t3, s3)) = Some (c3, 0)"
    using line [of 1] h s by simp
  have p2: "shown_line (press_up env 2 (t3, s3)) = Some (c2, 1)"
    using line [of 2] h s by simp
  have p3: "shown_line (press_up env 3 (t3, s3)) = Some (c1, 2)"
    using line [of 3] h s by simp
  have p4: "shown_line (press_up env 4 (t3, s3)) = Some ([], 3)"
    using line [of 4] h e by simp
  have p8: "shown_line (press_up env 8 (t3, s3)) = Some ([], 7)"
    using line [of 8] h e by (simp add: nth_Cons')
  from walk [of 7] obtain u7 where u7: "press_up env 7 (t3, s3) = Inr (u7, s3)"
    by auto
  define u8 where "u8 = HistoryUpDown env 1 u7"
  have r8: "press_up env 8 (t3, s3) = Inr (u8, s3)"
    using press_up_add [of env 7 1 "(t3, s3)"] u7 by (simp add: InputKey_up u8_def)
  from walk [of 8] r8 h have "cmd_history_index u8 = 7" "length (cmd_history u8) = 8"
    by auto
  then have "HistoryUpDown env 1 u8 = u8"
    by (intro HistoryUpDown_settles [OF u8_def]) simp_all
  then have "press_up env k (u8, s3) = Inr (u8, s3)"
    by (rule press_up_stays)
  then have clamp: "press_up env (8 + k) (t3, s3) = press_up env 8 (t3, s3)"
    using press_up_add [of env 8 k "(t3, s3)"] r8 by simp
  have down: "shown_line (InputKey env 0 0x51 NUL (t3, s3)) = Some ([], - 1)"
    using HistoryUpDown_down_at_bottom [OF i, of env] by (simp add: InputKey_down)
  from p1 p2 p3 p4 p8 clamp down show ?thesis
    by simp
qed

lemma strchr_space_word:
  "c_str buf = w \<Longrightarrow> CHR '' '' \<notin> set w \<Longrightarrow> strchr_space buf = None"
  by (simp add: strchr_space_def)

lemma ExecuteLine_ls:
  "c_str (linebuf t) = ''ls'' \<Longrightarrow> ExecuteLine env (t, s) = Inl NullPointer"
  by (simp add: ExecuteLine_def strchr_space_word [of _ "''ls''"] cmd_ls_def)

lemma ExecuteLine_echo:
  "c_str (linebuf t) = ''echo'' \<Longrightarrow> ExecuteLine env (t, s) = Inr (Print env [CHR 0x0A] t, s)"
  by (simp add: ExecuteLine_def strchr_space_word [of _ "''echo''"] cmd_echo_def)

lemma ExecuteLine_clear:
  "c_str (linebuf t) = ''clear'' \<Longrightarrow> ExecuteLine env (t, s) = Inr (t\<lparr>cursor_y := 0\<rparr>, s)"
  by (simp add: ExecuteLine_def strchr_space_word [of _ "''clear''"])

lemma ExecuteLine_lspci:
  "c_str (linebuf t) = ''lspci'' \<Longrightarrow> ExecuteLine env (t, s) = Inr (cmd_lspci env t, s)"
  by (simp add: ExecuteLine_def strchr_space_word [of _ "''lspci''"])

lemma enter_line:
  assumes f: "fits env t c"
  shows "input_keys env (c @ [CHR 0x0A]) (t, s) =
           (case ExecuteLine env (entered env (typed t c), s) of
              Inl f \<Rightarrow> Inl f
            | Inr (t5, s') \<Rightarrow> Inr (Print env ''>'' t5, s'))"
    and "c_str (linebuf (entered env (typed t c))) = c"
proof -
  from f have "input_keys env c (t, s) = Inr (typed t c, s)"
    by (intro input_keys_typed) (auto simp: fits_def)
  then show "input_keys env (c @ [CHR 0x0A]) (t, s) =
           (case ExecuteLine env (entered env (typed t c), s) of
              Inl f \<Rightarrow> Inl f
            | Inr (t5, s') \<Rightarrow> Inr (Print env ''>'' t5, s'))"
    by (simp add: input_keys_append InputKey_enter split: sum.splits)
  from f have "NUL \<notin> set c"
    by (auto simp: fits_def dest: plain_no_NUL)
  then show "c_str (linebuf (entered env (typed t c))) = c"
    using entered_typed(1) [OF f] by (simp add: c_str_line)
qed


lemma ExecuteLine_cat:
  "c_str (linebuf t) = ''cat'' \<Longrightarrow>
     ExecuteLine env (t, s) =
       (case cmd_cat env None t of Inl f \<Rightarrow> Inl f | Inr t' \<Rightarrow> Inr (t', s))"
  by (simp add: ExecuteLine_def strchr_space_word [of _ "''cat''"])

lemma ExecuteLine_noterm:
  "c_str (linebuf t) = ''noterm'' \<Longrightarrow>
     ExecuteLine env (t, s) = Inr (t, s\<lparr>trace := trace s @ [EvNewTask None]\<rparr>)"
  by (simp add: ExecuteLine_def strchr_space_word [of _ "''noterm''"])

lemma cmd_cat_null:
  "fst (fat_FindFile env None) = None \<Longrightarrow> cmd_cat env None t = Inl NullPointer"
  by (cases "fat_FindFile env None") (simp add: cmd_cat_def)


text \<open>
  C10, as amended. With \<open>ls\<close> alone in the line buffer, \<open>strchr\<close> finds no space,
  \<open>first_arg\<close> stays the null pointer, and the \<open>ls\<close> branch reads \<open>first_arg[0]\<close>:
  ExecuteLine ends in the fault \<open>NullPointer\<close>, for every terminal and kernel state. The
  branch is reached from the keyboard: typing \<open>ls\<close> and Enter at any prompt that takes
  the two keys ends in the same fault. The \<open>ls\<close> branch is not the only one that uses
  \<open>first_arg\<close> without a test. The \<open>echo\<close> branch tests it before use: \<open>echo\<close> alone in
  the line prints a newline and returns. \<open>cat\<close> alone in the line hands the null pointer
  to FindFile and, when FindFile finds no entry for it, to the \<open>%s\<close> of \<open>sprintf\<close>, which
  reads through it: the same fault. \<open>noterm\<close> alone in the line passes the null pointer
  on to the new task.
\<close>

theorem ExecuteLine_ls_reads_null_first_arg:
  "cmd_ls env None t = Inl NullPointer
   \<and> (c_str (linebuf t) = ''ls'' \<longrightarrow> ExecuteLine env (t, s) = Inl NullPointer)
   \<and> (fits env t ''ls'' \<longrightarrow> input_keys env (''ls'' @ [CHR 0x0A]) (t, s) = Inl NullPointer)
   \<and> (c_str (linebuf t) = ''echo'' \<longrightarrow>
        ExecuteLine env (t, s) = Inr (Print env [CHR 0x0A] t, s))
   \<and> (c_str (linebuf t) = ''cat'' \<longrightarrow>
        ExecuteLine env (t, s) =
          (case cmd_cat env None t of Inl f \<Rightarrow> Inl f | Inr t' \<Rightarrow> Inr (t', s)))
   \<and> (fst (fat_FindFile env None) = None \<longrightarrow> cmd_cat env None t = Inl NullPointer)
   \<and> (c_str (linebuf t) = ''noterm'' \<longrightarrow>
        ExecuteLine env (t, s) = Inr (t, s\<lparr>trace := trace s @ [EvNewTask None]\<rparr>))"
proof -
  have "input_keys env (''ls'' @ [CHR 0x0A]) (t, s) = Inl NullPointer" if "fits env t ''ls''"
    using enter_line(1) [OF that, of s] ExecuteLine_ls [OF enter_line(2) [OF that], of env s]
    by simp
  then show ?thesis
    using cmd_cat_null [of env t]
    by (auto simp: ExecuteLine_ls ExecuteLine_echo ExecuteLine_cat ExecuteLine_noterm cmd_ls_def)
qed

lemma Terminal_new_hist:
  "hist_of (Terminal_new env b)
     = (replicate 8 (replicate (nat (kLineMax env)) NUL), - 1, 0, nat (kLineMax env))"
proof -
  define t0 where "t0 = \<lparr>cursor_x = 0, cursor_y = 0,
                linebuf = replicate (nat (kLineMax env)) NUL, linebuf_index = 0,
                cmd_history = [], cmd_history_index = - 1,
                show_window = b, out = []\<rparr>"
  define t1 where "t1 = (if b then Print env ''>'' t0 else t0)"
  have "hist_of t1 = hist_of t0"
    by (simp add: t1_def hist_Print)
  then have "cmd_history t1 = []" "cmd_history_index t1 = - 1" "linebuf_index t1 = 0"
    "length (linebuf t1) = nat (kLineMax env)"
    by (simp_all add: hist_of_def t0_def)
  then show ?thesis
    by (simp add: Terminal_new_def Let_def t0_def [symmetric] t1_def [symmetric] hist_of_def)
qed

lemma demo_prompt: "cursor_x (Terminal_new demo_env True) = 1"
  by (simp add: Terminal_new_def Print_def c_str_def NUL_def Print_char_def demo_env_def Let_def)

lemma cursor_after_prompt:
  "cursor_x t = 0 \<Longrightarrow> kColumns env \<noteq> 1 \<Longrightarrow> cursor_x (Print env ''>'' t) = 1"
  by (simp add: Print_def c_str_def NUL_def Print_char_def Let_def)

lemma cursor_after_newline: "cursor_x (Print env [CHR 0x0A] t) = 0"
  by (simp add: Print_def c_str_def NUL_def Print_char_def newline_def Let_def)

lemma fits_next:
  assumes "fits env t c" and "input_keys env (c @ [CHR 0x0A]) (t, s) = Inr (t', s')"
    and "c' \<noteq> []" and "list_all plain_key c'"
    and "cursor_x t' + int (length c') \<le> kColumns env - 1"
    and "int (length c') \<le> kLineMax env - 1"
  shows "fits env t' c'"
  using enter_command [OF assms(1,2)] assms by (simp add: fits_def)

lemma demo_fits:
  "fits demo_env (Terminal_new demo_env True) ''echo''"
  using Terminal_new_hist [of demo_env True] demo_prompt
  by (simp add: fits_def hist_of_def plain_key_def NUL_def demo_env_def)

lemma enter_echo:
  assumes f: "fits env t ''echo''" and k: "kColumns env \<noteq> 1"
  shows "\<exists>t'. input_keys env (''echo'' @ [CHR 0x0A]) (t, s) = Inr (t', s) \<and> cursor_x t' = 1"
  using enter_line(1) [OF f, of s] ExecuteLine_echo [OF enter_line(2) [OF f], of env s]
    cursor_after_prompt [OF cursor_after_newline k]
  by simp

lemma enter_clear:
  assumes f: "fits env t ''clear''" and k: "kColumns env \<noteq> 1"
  shows "\<exists>t'. input_keys env (''clear'' @ [CHR 0x0A]) (t, s) = Inr (t', s) \<and> cursor_x t' = 1"
proof -
  have "cursor_x ((entered env (typed t ''clear''))\<lparr>cursor_y := 0\<rparr>) = 0"
    using entered_typed(5) [OF f] by simp
  from cursor_after_prompt [OF this k] show ?thesis
    using enter_line(1) [OF f, of s] ExecuteLine_clear [OF enter_line(2) [OF f], of env s]
    by simp
qed

lemma enter_lspci:
  assumes f: "fits env t ''lspci''" and k: "kColumns env \<noteq> 1"
    and n: "pci_device_lines env = []"
  shows "\<exists>t'. input_keys env (''lspci'' @ [CHR 0x0A]) (t, s) = Inr (t', s) \<and> cursor_x t' = 1"
proof -
  have "cursor_x (cmd_lspci env (entered env (typed t ''lspci''))) = 0"
    using entered_typed(5) [OF f] n by (simp add: cmd_lspci_def)
  from cursor_after_prompt [OF this k] show ?thesis
    using enter_line(1) [OF f, of s] ExecuteLine_lspci [OF enter_line(2) [OF f], of env s]
    by simp
qed

lemma input_keys_three:
  assumes "input_keys env a ts0 = Inr ts1" "input_keys env b ts1 = Inr ts2"
    "input_keys env c ts2 = Inr ts3"
  shows "input_keys env (a @ b @ c) ts0 = Inr ts3"
  using assms by (simp add: input_keys_append)

lemma demo_session:
  "\<exists>t1 t2 t3.
      fits demo_env (Terminal_new demo_env True) ''echo''
    \<and> input_keys demo_env (''echo'' @ [CHR 0x0A]) (Terminal_new demo_env True, demo_state)
        = Inr (t1, demo_state)
    \<and> fits demo_env t1 ''clear''
    \<and> input_keys demo_env (''clear'' @ [CHR 0x0A]) (t1, demo_state) = Inr (t2, demo_state)
    \<and> fits demo_env t2 ''lspci''
    \<and> input_keys demo_env (''lspci'' @ [CHR 0x0A]) (t2, demo_state) = Inr (t3, demo_state)
    \<and> input_keys demo_env demo_keys
        (Terminal_new demo_env True, demo_state) = Inr (t3, demo_state)"
proof -
  have k: "kColumns demo_env \<noteq> 1" and n: "pci_device_lines demo_env = []"
    and c: "kColumns demo_env = 60" "kLineMax demo_env = 128"
    by (simp_all add: demo_env_def)
  note f0 = demo_fits
  from enter_echo [OF f0 k, of demo_state] obtain t1 where
    r1: "input_keys demo_env (''echo'' @ [CHR 0x0A]) (Terminal_new demo_env True, demo_state)
           = Inr (t1, demo_state)" and x1: "cursor_x t1 = 1"
    by blast
  have f1: "fits demo_env t1 ''clear''"
    using x1 c by (intro fits_next [OF f0 r1]) (simp_all add: plain_key_def NUL_def)
  from enter_clear [OF f1 k, of demo_state] obtain t2 where
    r2: "input_keys demo_env (''clear'' @ [CHR 0x0A]) (t1, demo_state) = Inr (t2, demo_state)"
    and x2: "cursor_x t2 = 1"
    by blast
  have f2: "fits demo_env t2 ''lspci''"
    using x2 c by (intro fits_next [OF f1 r2]) (simp_all add: plain_key_def NUL_def)
  from enter_lspci [OF f2 k n, of demo_state] obtain t3 where
    r3: "input_keys demo_env (''lspci'' @ [CHR 0x0A]) (t2, demo_state) = Inr (t3, demo_state)"
    by blast
  have "demo_keys = (''echo'' @ [CHR 0x0A]) @ (''clear'' @ [CHR 0x0A]) @ (''lspci'' @ [CHR 0x0A])"
    by (simp add: demo_keys_def)
  then have "input_keys demo_env demo_keys (Terminal_new demo_env True, demo_state)
               = Inr (t3, demo_state)"
    using input_keys_three [OF r1 r2 r3] by (simp only:)
  with f0 r1 f1 r2 f2 r3 show ?thesis
    by blast
qed

lemma demo_fresh:
  "cmd_history (Terminal_new demo_env True)
     = replicate 8 (replicate (nat (kLineMax demo_env)) NUL)"
  using Terminal_new_hist [of demo_env True] by (simp add: hist_of_def)


lemma demo_fits_word:
  assumes "c \<noteq> []" and "list_all plain_key c" and "length c \<le> 58"
  shows "fits demo_env (Terminal_new demo_env True) c"
  using assms Terminal_new_hist [of demo_env True] demo_prompt
  by (simp add: fits_def hist_of_def demo_env_def)

theorem ExecuteLine_ls_reads_null_first_arg_witness:
  "fits demo_env (Terminal_new demo_env True) ''ls''
   \<and> input_keys demo_env (''ls'' @ [CHR 0x0A]) (Terminal_new demo_env True, demo_state)
       = Inl NullPointer
   \<and> c_str (linebuf (entered demo_env (typed (Terminal_new demo_env True) ''ls''))) = ''ls''
   \<and> ExecuteLine demo_env
         (entered demo_env (typed (Terminal_new demo_env True) ''ls''), demo_state)
       = Inl NullPointer
   \<and> c_str (linebuf (entered demo_env (typed (Terminal_new demo_env True) ''echo''))) = ''echo''
   \<and> ExecuteLine demo_env
         (entered demo_env (typed (Terminal_new demo_env True) ''echo''), demo_state)
       = Inr (Print demo_env [CHR 0x0A]
                (entered demo_env (typed (Terminal_new demo_env True) ''echo'')), demo_state)
   \<and> c_str (linebuf (entered demo_env (typed (Terminal_new demo_env True) ''cat''))) = ''cat''
   \<and> fst (fat_FindFile demo_env None) = None
   \<and> ExecuteLine demo_env
         (entered demo_env (typed (Terminal_new demo_env True) ''cat''), demo_state)
       = Inl NullPointer
   \<and> c_str (linebuf (entered demo_env (typed (Terminal_new demo_env True) ''noterm'')))
       = ''noterm''
   \<and> ExecuteLine demo_env
         (entered demo_env (typed (Terminal_new demo_env True) ''noterm''), demo_state)
       = Inr (entered demo_env (typed (Terminal_new demo_env True) ''noterm''),
              demo_state\<lparr>trace := trace demo_state @ [EvNewTask None]\<rparr>)"
proof -
  have f: "fits demo_env (Terminal_new demo_env True) ''ls''"
    by (rule demo_fits_word) (simp_all add: plain_key_def NUL_def)
  have g: "fits demo_env (Terminal_new demo_env True) ''cat''"
    by (rule demo_fits_word) (simp_all add: plain_key_def NUL_def)
  have h: "fits demo_env (Terminal_new demo_env True) ''noterm''"
    by (rule demo_fits_word) (simp_all add: plain_key_def NUL_def)
  note l = enter_line(2) [OF f]
  note e = enter_line(2) [OF demo_fits]
  note c = enter_line(2) [OF g]
  note n = enter_line(2) [OF h]
  have ff: "fst (fat_FindFile demo_env None) = None"
    by (simp add: demo_env_def)
  from f l e c n ff
    ExecuteLine_ls_reads_null_first_arg [of demo_env "Terminal_new demo_env True" demo_state]
    ExecuteLine_ls_reads_null_first_arg
      [of demo_env "entered demo_env (typed (Terminal_new demo_env True) ''ls'')" demo_state]
    ExecuteLine_ls_reads_null_first_arg
      [of demo_env "entered demo_env (typed (Terminal_new demo_env True) ''echo'')" demo_state]
    ExecuteLine_ls_reads_null_first_arg
      [of demo_env "entered demo_env (typed (Terminal_new demo_env True) ''cat'')" demo_state]
    ExecuteLine_ls_reads_null_first_arg
      [of demo_env "entered demo_env (typed (Terminal_new demo_env True) ''noterm'')" demo_state]
  show ?thesis
    by simp
qed


text \<open>
  C10 as stated fails: \<open>ls\<close> is not the only builtin branch that uses \<open>first_arg\<close>
  without a test. On the same terminal, typing \<open>cat\<close> and Enter reaches the \<open>cat\<close>
  branch with \<open>first_arg\<close> null; FindFile finds no entry, and \<open>sprintf\<close> reads the null
  pointer for \<open>%s\<close>.
\<close>

theorem ExecuteLine_cat_reads_null_first_arg:
  "input_keys demo_env (''cat'' @ [CHR 0x0A]) (Terminal_new demo_env True, demo_state)
     = Inl NullPointer"
proof -
  have g: "fits demo_env (Terminal_new demo_env True) ''cat''"
    by (rule demo_fits_word) (simp_all add: plain_key_def NUL_def)
  have "cmd_cat demo_env None (entered demo_env (typed (Terminal_new demo_env True) ''cat''))
          = Inl NullPointer"
    by (rule cmd_cat_null) (simp add: demo_env_def)
  with ExecuteLine_cat [OF enter_line(2) [OF g], of demo_env demo_state]
  have "ExecuteLine demo_env
          (entered demo_env (typed (Terminal_new demo_env True) ''cat''), demo_state)
          = Inl NullPointer"
    by simp
  then show ?thesis
    unfolding enter_line(1) [OF g] by simp
qed


text \<open>
  C7, as amended. Start from a terminal whose eight history slots are blank, and enter
  three commands, each of which fits its prompt and whose execution returns. Then the
  up arrow shows the third command, the second and the first, at the history indices
  0, 1 and 2. The fourth press is not clamped: it moves on to index 3, a blank slot,
  and the line becomes empty. The index stops at 7, the last of the eight slots: from
  the eighth press on, a further press changes nothing. At the other end the down arrow
  leaves the index at \<open>- 1\<close> with an empty line.
\<close>

theorem history_back_walks_all_eight_slots:
  assumes "cmd_history t0 = replicate 8 (replicate (nat (kLineMax env)) NUL)"
    and "fits env t0 c1" "input_keys env (c1 @ [CHR 0x0A]) (t0, s0) = Inr (t1, s1)"
    and "fits env t1 c2" "input_keys env (c2 @ [CHR 0x0A]) (t1, s1) = Inr (t2, s2)"
    and "fits env t2 c3" "input_keys env (c3 @ [CHR 0x0A]) (t2, s2) = Inr (t3, s3)"
  shows "shown_line (press_up env 1 (t3, s3)) = Some (c3, 0)
       \<and> shown_line (press_up env 2 (t3, s3)) = Some (c2, 1)
       \<and> shown_line (press_up env 3 (t3, s3)) = Some (c1, 2)
       \<and> shown_line (press_up env 4 (t3, s3)) = Some ([], 3)
       \<and> shown_line (press_up env 8 (t3, s3)) = Some ([], 7)
       \<and> press_up env (8 + k) (t3, s3) = press_up env 8 (t3, s3)
       \<and> shown_line (InputKey env 0 0x51 NUL (t3, s3)) = Some ([], - 1)"
  using assms by (rule history_walk)


theorem history_back_walks_all_eight_slots_witness:
  "shown_line (then_press_up demo_env 1
     (input_keys demo_env demo_keys
        (Terminal_new demo_env True, demo_state))) = Some (''lspci'', 0)
   \<and> shown_line (then_press_up demo_env 2
     (input_keys demo_env demo_keys
        (Terminal_new demo_env True, demo_state))) = Some (''clear'', 1)
   \<and> shown_line (then_press_up demo_env 8
     (input_keys demo_env demo_keys
        (Terminal_new demo_env True, demo_state))) = Some ([], 7)
   \<and> then_press_up demo_env 9
     (input_keys demo_env demo_keys
        (Terminal_new demo_env True, demo_state))
     = then_press_up demo_env 8
     (input_keys demo_env demo_keys
        (Terminal_new demo_env True, demo_state))"
proof -
  from demo_session obtain t1 t2 t3 where
    s: "fits demo_env (Terminal_new demo_env True) ''echo''"
       "input_keys demo_env (''echo'' @ [CHR 0x0A]) (Terminal_new demo_env True, demo_state)
          = Inr (t1, demo_state)"
       "fits demo_env t1 ''clear''"
       "input_keys demo_env (''clear'' @ [CHR 0x0A]) (t1, demo_state) = Inr (t2, demo_state)"
       "fits demo_env t2 ''lspci''"
       "input_keys demo_env (''lspci'' @ [CHR 0x0A]) (t2, demo_state) = Inr (t3, demo_state)"
    and a: "input_keys demo_env demo_keys
        (Terminal_new demo_env True, demo_state) = Inr (t3, demo_state)"
    by blast
  from history_back_walks_all_eight_slots [OF demo_fresh s, of 1] show ?thesis
    unfolding a then_press_up_def by simp
qed


text \<open>
  C7 as stated fails on a fresh terminal: after \<open>echo\<close>, \<open>clear\<close> and \<open>lspci\<close> were
  entered, the third press of the up arrow shows \<open>echo\<close> at index 2, and the fourth
  press replaces it with the empty line of slot 3.
\<close>

theorem history_fourth_press_changes_line:
  "shown_line (then_press_up demo_env 3
     (input_keys demo_env demo_keys
        (Terminal_new demo_env True, demo_state))) = Some (''echo'', 2)
   \<and> shown_line (then_press_up demo_env 4
     (input_keys demo_env demo_keys
        (Terminal_new demo_env True, demo_state))) = Some ([], 3)"
proof -
  from demo_session obtain t1 t2 t3 where
    s: "fits demo_env (Terminal_new demo_env True) ''echo''"
       "input_keys demo_env (''echo'' @ [CHR 0x0A]) (Terminal_new demo_env True, demo_state)
          = Inr (t1, demo_state)"
       "fits demo_env t1 ''clear''"
       "input_keys demo_env (''clear'' @ [CHR 0x0A]) (t1, demo_state) = Inr (t2, demo_state)"
       "fits demo_env t2 ''lspci''"
       "input_keys demo_env (''lspci'' @ [CHR 0x0A]) (t2, demo_state) = Inr (t3, demo_state)"
    and a: "input_keys demo_env demo_keys
        (Terminal_new demo_env True, demo_state) = Inr (t3, demo_state)"
    by blast
  from history_walk [OF demo_fresh s, of 0] show ?thesis
    unfolding a then_press_up_def by simp
qed

section \<open>The lines that reach MakeArgVector\<close>

text \<open>
  MakeArgVector is called by ExecuteFile alone, and ExecuteFile by ExecuteLine alone,
  with the pieces of \<open>linebuf\<close>. InputKey stores a character only while
  \<open>linebuf_index < kLineMax - 1\<close>, HistoryUpDown copies a line of the history, and Enter
  puts the NUL at \<open>linebuf_index\<close>: the line that ExecuteLine cuts into the command word
  and the argument string has fewer than \<open>kLineMax\<close> characters.
\<close>

lemma takeWhile_stops: "length (takeWhile (\<lambda>c. c \<noteq> z) (a @ z # b)) \<le> length a"
  by (induction a) simp_all

lemma c_str_cut: "i < length xs \<Longrightarrow> length (c_str (xs[i := NUL])) \<le> i"
proof -
  assume i: "i < length xs"
  then have "xs[i := NUL] = take i xs @ NUL # drop (Suc i) xs"
    by (rule upd_conv_take_nth_drop)
  then have "length (c_str (xs[i := NUL])) \<le> length (take i xs)"
    unfolding c_str_def by (simp only: takeWhile_stops)
  then show ?thesis
    using i by simp
qed

lemma c_str_c_str: "c_str (c_str s) = c_str s"
  by (simp add: c_str_def)

lemma takeWhile_after_dropWhile: "takeWhile P (dropWhile P xs) = []"
  by (induction xs) simp_all

text \<open>
  The two pieces that ExecuteLine cuts from a line, with the cut between them, are as
  long as the line.
\<close>

lemma line_pieces:
  assumes "strchr_space buf = Some k"
  shows "length (c_str (buf[k := NUL])) + 1 + length (c_str (drop (k + 1) (buf[k := NUL])))
           = length (c_str buf)"
proof -
  define cs where "cs = c_str buf"
  define w where "w = takeWhile (\<lambda>c. c \<noteq> CHR '' '') cs"
  define r where "r = tl (dropWhile (\<lambda>c. c \<noteq> CHR '' '') cs)"
  define rear where "rear = dropWhile (\<lambda>c. c \<noteq> NUL) buf"
  from assms have sp: "CHR '' '' \<in> set cs" and k: "k = length w"
    by (auto simp: strchr_space_def cs_def w_def split: if_splits)
  from sp have "dropWhile (\<lambda>c. c \<noteq> CHR '' '') cs \<noteq> []"
    by (simp add: dropWhile_eq_Nil_conv) 
  with hd_dropWhile [OF this] have "dropWhile (\<lambda>c. c \<noteq> CHR '' '') cs = CHR '' '' # r"
    by (cases "dropWhile (\<lambda>c. c \<noteq> CHR '' '') cs") (auto simp: r_def)
  then have cs: "cs = w @ CHR '' '' # r"
    using takeWhile_dropWhile_id [of "\<lambda>c. c \<noteq> CHR '' ''" cs] by (simp add: w_def)
  have buf: "buf = cs @ rear"
    by (simp add: cs_def rear_def c_str_def)
  have nn: "NUL \<notin> set cs"
    by (auto simp: cs_def c_str_def dest: set_takeWhileD)
  then have nw: "NUL \<notin> set w" and nr: "\<forall>c\<in>set r. c \<noteq> NUL"
    by (auto simp: cs)
  have upd: "buf[k := NUL] = w @ NUL # r @ rear"
    by (simp add: buf cs k list_update_append)
  have a: "c_str (buf[k := NUL]) = w"
    using nw by (simp add: upd c_str_line)
  have "drop (k + 1) (buf[k := NUL]) = r @ rear"
    unfolding upd by (simp add: k)
  then have b: "c_str (drop (k + 1) (buf[k := NUL])) = r"
    using nr by (simp add: c_str_def takeWhile_append2 rear_def takeWhile_after_dropWhile
        del: drop_Suc_Cons)
  show ?thesis
    unfolding a b by (simp add: cs_def [symmetric] cs)
qed

lemma line_ok_hist: "hist_of t' = hist_of t \<Longrightarrow> line_ok env t' = line_ok env t"
  by (simp add: hist_of_def line_ok_def)

lemma line_ok_entered:
  assumes "line_ok env t"
  shows "line_ok env (entered env t)"
    and "int (length (c_str (linebuf (entered env t)))) < kLineMax env"
proof -
  define l where "l = (linebuf t)[nat (linebuf_index t) := NUL]"
  from assms have i: "nat (linebuf_index t) < length (linebuf t)"
    by (auto simp: line_ok_def)
  from c_str_cut [OF i] assms have short: "int (length (c_str l)) < kLineMax env"
    by (auto simp: l_def line_ok_def)
  have lb: "linebuf (entered env t) = l"
    by (simp add: entered_def l_def Let_def)
  have "list_all (\<lambda>h. int (length (c_str h)) < kLineMax env) (butlast (cmd_history t))"
    using assms by (auto simp: line_ok_def list_all_iff dest: in_set_butlastD)
  moreover have "length l = length (linebuf t)"
    by (simp add: l_def)
  ultimately show "line_ok env (entered env t)"
    using assms short by (auto simp: line_ok_def entered_def l_def [symmetric] Let_def)
  from short show "int (length (c_str (linebuf (entered env t)))) < kLineMax env"
    by (simp add: lb)
qed

lemma line_ok_HistoryUpDown:
  assumes "line_ok env t"
  shows "line_ok env (HistoryUpDown env d t)"
proof -
  define t1 where
    "t1 = (if d = - 1 \<and> cmd_history_index t \<ge> 0
           then t\<lparr>cmd_history_index := cmd_history_index t - 1\<rparr>
           else if d = 1 \<and> cmd_history_index t + 1 < int (length (cmd_history t))
           then t\<lparr>cmd_history_index := cmd_history_index t + 1\<rparr>
           else t)"
  define history where
    "history = (if cmd_history_index t1 \<ge> 0
                then c_str (cmd_history t1 ! nat (cmd_history_index t1)) else [])"
  from assms have ok1: "line_ok env t1"
    by (auto simp: t1_def line_ok_def)
  then have pos: "0 < kLineMax env"
    by (auto simp: line_ok_def)
  have "cmd_history_index t1 \<ge> 0 \<Longrightarrow> cmd_history t1 ! nat (cmd_history_index t1) \<in> set (cmd_history t1)"
    using ok1 by (intro nth_mem) (auto simp: line_ok_def)
  with ok1 pos have h: "int (length history) < kLineMax env"
    by (auto simp: history_def line_ok_def list_all_iff)
  have "HistoryUpDown env d t =
          t1\<lparr>linebuf := history @ [NUL] @ drop (length history + 1) (linebuf t1),
             linebuf_index := int (length history),
             cursor_x := int (length history) + 1\<rparr>"
    by (simp add: HistoryUpDown_def Let_def t1_def [symmetric] history_def [symmetric])
  with ok1 h show ?thesis
    by (auto simp: line_ok_def)
qed

lemma InputKey_backspace:
  "InputKey env m k (CHR 0x08) (t, s) =
     Inr (if cursor_x t > 0
          then (if linebuf_index t > 0
                then t\<lparr>cursor_x := cursor_x t - 1, linebuf_index := linebuf_index t - 1\<rparr>
                else t\<lparr>cursor_x := cursor_x t - 1\<rparr>)
          else t, s)"
  by (simp add: InputKey_def)

lemma InputKey_no_character:
  "InputKey env m k NUL (t, s) =
     Inr (if k = 0x51 then HistoryUpDown env (- 1) t
          else if k = 0x52 then HistoryUpDown env 1 t else t, s)"
  by (simp add: InputKey_def NUL_def)

lemma line_ok_InputKey:
  assumes ok: "line_ok env t"
    and run: "InputKey env m k c (t, s) = Inr (t', s')"
  shows "line_ok env t'"
proof -
  consider "c = CHR 0x0A" | "c = CHR 0x08" | "c = NUL" | "plain_key c"
    by (auto simp: plain_key_def)
  then show ?thesis
  proof cases
    case 1
    with run obtain t5 where ex: "ExecuteLine env (entered env t, s) = Inr (t5, s')"
      and t': "t' = Print env ''>'' t5"
      by (auto simp: InputKey_enter split: sum.splits)
    from hist_ExecuteLine [OF ex] have "hist_of t' = hist_of (entered env t)"
      by (simp add: t' hist_Print)
    from line_ok_hist [OF this] line_ok_entered(1) [OF ok] show ?thesis
      by simp
  next
    case 2
    with run have
      "t' = t\<lparr>cursor_x := cursor_x t - 1, linebuf_index := linebuf_index t - 1\<rparr>
            \<and> linebuf_index t > 0
       \<or> t' = t\<lparr>cursor_x := cursor_x t - 1\<rparr> \<or> t' = t"
      by (auto simp: InputKey_backspace split: if_splits)
    with ok show ?thesis
      by (auto simp: line_ok_def)
  next
    case 3
    with run have "t' = HistoryUpDown env (- 1) t \<or> t' = HistoryUpDown env 1 t \<or> t' = t"
      by (auto simp: InputKey_no_character split: if_splits)
    with ok line_ok_HistoryUpDown [OF ok] show ?thesis
      by auto
  next
    case 4
    with run have
      "t' = t\<lparr>linebuf := (linebuf t)[nat (linebuf_index t) := c],
               linebuf_index := linebuf_index t + 1,
               cursor_x := cursor_x t + 1\<rparr>
            \<and> linebuf_index t < kLineMax env - 1
       \<or> t' = t"
      by (auto simp: InputKey_plain split: if_splits)
    with ok show ?thesis
      by (auto simp: line_ok_def)
  qed
qed

lemma line_ok_input_keys:
  "line_ok env t \<Longrightarrow> input_keys env cs (t, s) = Inr (t', s') \<Longrightarrow> line_ok env t'"
proof (induction cs arbitrary: t s)
  case Nil
  then show ?case by simp
next
  case (Cons c cs)
  from Cons.prems(2) obtain t1 s1 where
    a: "InputKey env 0 0 c (t, s) = Inr (t1, s1)" and b: "input_keys env cs (t1, s1) = Inr (t', s')"
    by (auto split: sum.splits)
  from line_ok_InputKey [OF Cons.prems(1) a] b show ?case
    by (rule Cons.IH)
qed

lemma line_ok_Terminal_new: "0 < kLineMax env \<Longrightarrow> line_ok env (Terminal_new env w)"
  using Terminal_new_hist [of env w]
  by (simp add: hist_of_def line_ok_def c_str_blank list_all_iff)

text \<open>
  The command word and the argument string that ExecuteLine cuts from the line of a
  terminal, with their two terminating NULs, take no more bytes than \<open>linebuf\<close> has.
\<close>

lemma ExecuteLine_arguments_fit:
  assumes ok: "line_ok env t" and big: "kLineMax env \<le> argbuf_len"
  shows "let t0 = entered env t;
             u = (case strchr_space (linebuf t0) of
                    None \<Rightarrow> t0
                  | Some k \<Rightarrow> t0\<lparr>linebuf := (linebuf t0)[k := NUL]\<rparr>);
             command = c_str (linebuf u);
             first_arg = (case strchr_space (linebuf t0) of
                            None \<Rightarrow> None
                          | Some k \<Rightarrow> Some (c_str (drop (k + 1) (linebuf u))))
         in int (length (c_str command)) + 1
              + (case first_arg of None \<Rightarrow> 0 | Some p \<Rightarrow> int (length (c_str p)) + 1)
            \<le> argbuf_len"
proof (cases "strchr_space (linebuf (entered env t))")
  case None
  with line_ok_entered(2) [OF ok] big show ?thesis
    by (simp add: Let_def c_str_c_str)
next
  case (Some k)
  from line_pieces [OF Some] line_ok_entered(2) [OF ok] big show ?thesis
    by (simp add: Let_def Some c_str_c_str)
qed

end
